theory Spec2Isabelle
  imports Main "HOL-Library.AList"
begin

section \<open>Data model of EthWeb3Manager.ts\<close>

text \<open>
  The payout orchestrator of the faucet, \<^verbatim>\<open>src/services/EthWeb3Manager.ts\<close>, as a
  shallow embedding. A \<^verbatim>\<open>bigint\<close> is an \<open>int\<close>. A \<^verbatim>\<open>number\<close> that holds a
  count (nonce, block number, queue index) is a \<open>nat\<close>, one that holds a time stamp is an
  \<open>int\<close>; both are taken to stay below \<open>2 ^ 53\<close>, where the arithmetic of
  \<^verbatim>\<open>number\<close> is exact. A field that JavaScript leaves \<^verbatim>\<open>undefined\<close> until it is
  assigned is an \<open>option\<close>.
\<close>

record WalletState =
  ready :: bool
  nonce :: nat
  balance :: int
  nativeBalance :: int

record FaucetTokenState =
  address :: string
  decimals :: nat

datatype ClaimTxStatus = QUEUE | PROCESSING | PENDING | CONFIRMED | FAILED

datatype FaucetCoinType = NATIVE | ERC20

datatype FucetWalletState = UNKNOWN | NORMAL | LOWFUNDS | NOFUNDS | OFFLINE

record TransactionReceipt =
  blockNumber :: nat
  effectiveGasPrice :: int
  gasUsed :: int
  status :: bool

record IQueuedClaimTx =
  time :: int
  target :: string
  amount :: string
  session :: string

record ClaimTx =
  queueIdx :: "nat option"
  status :: ClaimTxStatus
  time :: int
  target :: string
  amount :: int
  session :: string
  nonce :: "nat option"
  txhex :: "string option"
  txhash :: "string option"
  txblock :: "nat option"
  txfee :: int
  retryCount :: nat
  failReason :: "string option"

text \<open>
  \<^verbatim>\<open>faucetConfig\<close> comes from \<^verbatim>\<open>../common/FaucetConfig\<close>, which is not among the
  sources; the records below hold the options that EthWeb3Manager.ts reads, with the types
  its uses of them require (\<^verbatim>\<open>BigInt(faucetConfig.ethTxGasLimit)\<close> needs an integer).
  Amounts are numbers that hold a whole number of the smallest unit. Each is given as the
  whole number that the digits of its \<^verbatim>\<open>toString()\<close> denote, which is the number
  itself for the round amounts of a configuration (\<open>10 ^ 18\<close>, \<open>10 ^ 21\<close>) and for
  every whole number up to \<open>2 ^ 53\<close>. An option that may be absent is an
  \<open>option\<close>, and the source tests such an option for truthiness, so that a number 0 and
  an empty string count as absent. \<open>checkContractBalance\<close>, which is \<^verbatim>\<open>true\<close> or the
  address to check, is kept as its truth value.
\<close>

record RefillContract =
  contract :: string
  triggerBalance :: int
  overflowBalance :: "int option"
  cooldownTime :: "int option"
  requestAmount :: int
  allowanceFn :: "string option"
  checkContractBalance :: bool
  contractDustBalance :: "int option"
  allowanceFnArgs :: "string list option"
  withdrawFn :: string
  withdrawFnArgs :: "string list option"
  depositFn :: "string option"
  depositFnArgs :: "string list option"
  withdrawGasLimit :: "int option"

record FaucetConfig =
  faucetCoinType :: FaucetCoinType
  faucetCoinContract :: string
  noFundsBalance :: int
  lowFundsBalance :: int
  spareFundsAmount :: int
  ethTxGasLimit :: int
  ethTxMaxFee :: int
  ethMaxPending :: nat
  ethQueueNoFunds :: bool
  ethRefillContract :: "RefillContract option"

section \<open>Status publisher\<close>

text \<open>
  \<^verbatim>\<open>updateFaucetStatus\<close>, lines 271 to 282: the tier \<^verbatim>\<open>newStatus\<close> computed from
  \<^verbatim>\<open>this.walletState\<close>, which is \<^verbatim>\<open>undefined\<close> (here \<open>None\<close>) before the first
  \<^verbatim>\<open>loadWalletState\<close>. The source assigns \<^verbatim>\<open>NORMAL\<close> first and overwrites it in an
  \<^verbatim>\<open>if / else if\<close> chain of four tests.
\<close>

definition newStatus :: "FaucetConfig \<Rightarrow> WalletState option \<Rightarrow> FucetWalletState" where
  "newStatus cfg wso =
     (case wso of
        None \<Rightarrow> UNKNOWN
      | Some ws \<Rightarrow>
          (if \<not> ready ws then OFFLINE
           else if balance ws \<le> noFundsBalance cfg then NOFUNDS
           else if nativeBalance ws \<le> ethTxGasLimit cfg * ethTxMaxFee cfg then NOFUNDS
           else if balance ws \<le> lowFundsBalance cfg then LOWFUNDS
           else NORMAL))"

section \<open>Exposed balance\<close>

text \<open>
  \<^verbatim>\<open>getFaucetBalance(native?)\<close>, lines 350 to 355:
  \<^verbatim>\<open>this.walletState?.nativeBalance || null\<close>. The operator \<^verbatim>\<open>||\<close> yields its right
  operand when the left one is falsy; a \<^verbatim>\<open>bigint\<close> is falsy exactly when it is
  \<^verbatim>\<open>0n\<close>, and \<^verbatim>\<open>undefined\<close> (no wallet state yet) is falsy. \<^verbatim>\<open>null\<close> is \<open>None\<close>.
\<close>

definition or_null :: "int option \<Rightarrow> int option" where
  "or_null v = (case v of None \<Rightarrow> None | Some x \<Rightarrow> (if x = 0 then None else Some x))"

definition getFaucetBalance :: "WalletState option \<Rightarrow> bool \<Rightarrow> int option" where
  "getFaucetBalance wso native =
     (if native then or_null (map_option nativeBalance wso)
      else or_null (map_option balance wso))"

section \<open>ClaimTx: construction and the serialized form\<close>

text \<open>
  \<^verbatim>\<open>bigint.prototype.toString()\<close> writes the decimal digits of the value, most
  significant first, with a leading \<^verbatim>\<open>-\<close> for a negative one.
\<close>

definition digit_char :: "nat \<Rightarrow> char" where
  "digit_char d = char_of (48 + d)"

definition is_digit :: "char \<Rightarrow> bool" where
  "is_digit c = (48 \<le> (of_char c :: nat) \<and> (of_char c :: nat) \<le> 57)"

definition digit_val :: "char \<Rightarrow> nat" where
  "digit_val c = of_char c - 48"

function nat_toString :: "nat \<Rightarrow> string" where
  "nat_toString n =
     (if n < 10 then [digit_char n]
      else nat_toString (n div 10) @ [digit_char (n mod 10)])"
  by pat_completeness auto
termination
  by (relation "measure id") auto

declare nat_toString.simps [simp del]

definition bigint_toString :: "int \<Rightarrow> string" where
  "bigint_toString i =
     (if i < 0 then CHR ''-'' # nat_toString (nat (- i)) else nat_toString (nat i))"

text \<open>
  \<^verbatim>\<open>BigInt(string)\<close> on the literals that \<^verbatim>\<open>toString\<close> can produce: the empty
  string is \<^verbatim>\<open>0n\<close>, and decimal digits with an optional sign are read as a number.
  \<open>None\<close> stands for every other string: JavaScript throws a SyntaxError on most of them,
  and the remaining forms (surrounding white space, the prefixes
  \<^verbatim>\<open>0x\<close>, \<^verbatim>\<open>0o\<close>, \<^verbatim>\<open>0b\<close>) are never written by \<^verbatim>\<open>serialize\<close>.
\<close>

fun parse_digits :: "nat \<Rightarrow> string \<Rightarrow> nat option" where
  "parse_digits acc [] = Some acc"
| "parse_digits acc (c # cs) =
     (if is_digit c then parse_digits (acc * 10 + digit_val c) cs else None)"

definition BigInt :: "string \<Rightarrow> int option" where
  "BigInt str =
     (case str of
        [] \<Rightarrow> Some 0
      | c # cs \<Rightarrow>
          (if c = CHR ''-'' then
             (if cs = [] then None else map_option (\<lambda>n. - int n) (parse_digits 0 cs))
           else if c = CHR ''+'' then
             (if cs = [] then None else map_option int (parse_digits 0 cs))
           else map_option int (parse_digits 0 str)))"

text \<open>
  \<^verbatim>\<open>Number.prototype.toString()\<close> on a number that holds a whole number. Below
  \<open>10 ^ 21\<close> in magnitude it writes the decimal digits; from \<open>10 ^ 21\<close> on it writes
  the exponent form, as in \<^verbatim>\<open>1e+21\<close> and \<^verbatim>\<open>1.5e+21\<close>: the digits without the
  zeros at their end, a point after the first digit when more digits follow, and the
  exponent.
\<close>

definition number_toString :: "int \<Rightarrow> string" where
  "number_toString x =
     (if \<bar>x\<bar> < 1000000000000000000000 then bigint_toString x
      else (let digits = nat_toString (nat \<bar>x\<bar>);
                mantissa = rev (dropWhile (\<lambda>c. c = CHR ''0'') (rev digits))
            in (if x < 0 then ''-'' else [])
               @ (case mantissa of
                    [] \<Rightarrow> []
                  | d # ds \<Rightarrow> d # (if ds = [] then [] else CHR ''.'' # ds))
               @ ''e+'' @ nat_toString (length digits - 1)))"

text \<open>
  \<^verbatim>\<open>BigInt(x.toString())\<close> for a number \<open>x\<close> of the configuration, as in lines 651,
  653, 665 and 737. \<open>Inl\<close> is the SyntaxError that \<^verbatim>\<open>BigInt\<close> throws on a string it
  cannot read, as the text of \<^verbatim>\<open>ex.toString()\<close>.
\<close>

definition configBigInt :: "int \<Rightarrow> string + int" where
  "configBigInt x =
     (case BigInt (number_toString x) of
        None \<Rightarrow> Inl (''SyntaxError: Cannot convert '' @ number_toString x @ '' to a BigInt'')
      | Some v \<Rightarrow> Inr v)"

text \<open>
  The constructor, lines 87 to 96. \<open>now\<close> is what \<^verbatim>\<open>new Date()\<close> reads from the
  clock, in milliseconds; \<open>date\<close> is the optional fourth argument. The test
  \<^verbatim>\<open>date ? new Date(date) : new Date()\<close> takes the clock when \<open>date\<close> is falsy:
  absent, or the number 0. A \<^verbatim>\<open>Date\<close> is its time value \<^verbatim>\<open>getTime()\<close>;
  the model has no invalid dates.
\<close>

definition new_ClaimTx :: "int \<Rightarrow> string \<Rightarrow> int \<Rightarrow> string \<Rightarrow> int option \<Rightarrow> ClaimTx" where
  "new_ClaimTx now tgt amt sessId date =
     \<lparr> queueIdx = None,
       status = QUEUE,
       time = (case date of None \<Rightarrow> now | Some d \<Rightarrow> (if d = 0 then now else d)),
       target = tgt,
       amount = amt,
       session = sessId,
       nonce = None,
       txhex = None,
       txhash = None,
       txblock = None,
       txfee = 0,
       retryCount = 0,
       failReason = None \<rparr>"

text \<open>\<^verbatim>\<open>ClaimTx.serialize\<close>, lines 98 to 105.\<close>

definition serialize :: "ClaimTx \<Rightarrow> IQueuedClaimTx" where
  "serialize c =
     \<lparr> IQueuedClaimTx.time = ClaimTx.time c,
       IQueuedClaimTx.target = ClaimTx.target c,
       IQueuedClaimTx.amount = bigint_toString (ClaimTx.amount c),
       IQueuedClaimTx.session = ClaimTx.session c \<rparr>"

text \<open>
  Line 137 of the manager's constructor, which rebuilds a claim from a stored entry:
  \<^verbatim>\<open>new ClaimTx(claimTx.target, BigInt(claimTx.amount), claimTx.session, claimTx.time)\<close>.
  When \<^verbatim>\<open>BigInt\<close> throws there is no claim.
\<close>

definition restoreClaimTx :: "int \<Rightarrow> IQueuedClaimTx \<Rightarrow> ClaimTx option" where
  "restoreClaimTx now q =
     (case BigInt (IQueuedClaimTx.amount q) of
        None \<Rightarrow> None
      | Some amt \<Rightarrow>
          Some (new_ClaimTx now (IQueuedClaimTx.target q) amt (IQueuedClaimTx.session q)
                  (Some (IQueuedClaimTx.time q))))"

section \<open>The manager and its collaborators\<close>

text \<open>
  What the program does to the world outside the manager is kept as a list of events, in the
  order of the calls: \<^verbatim>\<open>claimTx.emit(name)\<close> with the session of the claim, the
  transaction data handed to \<^verbatim>\<open>buildEthTx\<close>, the hex string handed to
  \<^verbatim>\<open>sendTransaction\<close>, \<^verbatim>\<open>sleepPromise(ms)\<close>, the reads of
  \<^verbatim>\<open>loadWalletState\<close>, the tier published by \<^verbatim>\<open>updateFaucetStatus\<close> and
  \<^verbatim>\<open>addClaimStats\<close>. Log lines are left out. \<open>Uncaught\<close> is an exception that
  leaves \<^verbatim>\<open>tryRefillWallet\<close>, with its text: the call ends there, and the
  \<^verbatim>\<open>catch\<close> of \<^verbatim>\<open>processQueue\<close> (line 468) takes it.
\<close>

datatype callarg = ArgText string | ArgAmount int | ArgToken "string option"

datatype calldata = TransferData string int | MethodCall string "callarg list"

datatype event =
    Emit string string
  | BuildEthTx string int nat "calldata option" int
  | SendTransaction string
  | Sleep nat
  | ReadWalletState
  | SetFaucetStatus FucetWalletState
  | AddClaimStats string
  | Uncaught string

text \<open>A timer set with \<^verbatim>\<open>setTimeout\<close>: what it will do, beside its delay in milliseconds.\<close>

datatype timer = EvictHistory nat

text \<open>
  The fields of \<^verbatim>\<open>class EthWeb3Manager\<close> that the pipeline and the refill controller
  use, once the first \<^verbatim>\<open>loadWalletState\<close> of the constructor has settled; the tick is
  started only then (line 142), so \<open>walletState\<close> is defined. The two dictionaries are
  association lists with unique keys, in insertion order: assignment is \<open>AList.update\<close>,
  \<^verbatim>\<open>delete\<close> is \<open>AList.delete\<close>. A claim object that the source shares between a
  dictionary and a closure is stored with the last values the source gives its fields.
  \<open>queuedClaimTxs\<close> is the durable queue of \<^verbatim>\<open>FaucetStoreDB\<close>, \<open>timeouts\<close> the timers
  set and not yet run, \<open>effects\<close> the events so far.
\<close>

record EthWeb3Manager =
  walletAddr :: string
  walletState :: WalletState
  tokenState :: "FaucetTokenState option"
  claimTxQueue :: "ClaimTx list"
  pendingTxQueue :: "(string \<times> ClaimTx) list"
  historyTxDict :: "(nat \<times> ClaimTx) list"
  lastWalletRefresh :: int
  lastClaimTxIdx :: nat
  lastProcessedClaimTxIdx :: "nat option"
  lastWalletRefill :: "int option"
  lastWalletRefillTry :: "int option"
  walletRefilling :: bool
  queuedClaimTxs :: "IQueuedClaimTx list"
  timeouts :: "(nat \<times> timer) list"
  effects :: "event list"

text \<open>
  Modelled from the spec: \<^verbatim>\<open>FaucetStoreDB\<close> is not among the sources. The spec names
  its interface, \<^verbatim>\<open>addQueuedClaimTx(entry)\<close> and \<^verbatim>\<open>removeQueuedClaimTx(session)\<close> on
  a durable queue of entries: adding appends the entry, removing drops every entry of that
  session.
\<close>

definition addQueuedClaimTx :: "IQueuedClaimTx \<Rightarrow> IQueuedClaimTx list \<Rightarrow> IQueuedClaimTx list" where
  "addQueuedClaimTx entry db = db @ [entry]"

definition removeQueuedClaimTx :: "string \<Rightarrow> IQueuedClaimTx list \<Rightarrow> IQueuedClaimTx list" where
  "removeQueuedClaimTx sessId db = filter (\<lambda>e. IQueuedClaimTx.session e \<noteq> sessId) db"

definition emit :: "event \<Rightarrow> EthWeb3Manager \<Rightarrow> EthWeb3Manager" where
  "emit e s = s\<lparr>effects := effects s @ [e]\<rparr>"

text \<open>
  \<^verbatim>\<open>startWeb3\<close>, lines 174 to 177, with \<^verbatim>\<open>initWeb3Token\<close>: the token state exists
  exactly when the coin type is not native. Its \<^verbatim>\<open>decimals\<close> start at 0.
\<close>

definition startWeb3 :: "FaucetConfig \<Rightarrow> EthWeb3Manager \<Rightarrow> EthWeb3Manager" where
  "startWeb3 cfg s =
     (if faucetCoinType cfg \<noteq> NATIVE
      then s\<lparr>tokenState := Some \<lparr>address = faucetCoinContract cfg, decimals = 0\<rparr>\<rparr>
      else s\<lparr>tokenState := None\<rparr>)"

text \<open>
  \<^verbatim>\<open>updateFaucetStatus\<close> publishes under the key \<^verbatim>\<open>"wallet"\<close> a message and a level
  chosen by the tier; the event keeps the tier.
\<close>

definition updateFaucetStatus :: "FaucetConfig \<Rightarrow> EthWeb3Manager \<Rightarrow> EthWeb3Manager" where
  "updateFaucetStatus cfg s = emit (SetFaucetStatus (newStatus cfg (Some (walletState s)))) s"

text \<open>
  \<^verbatim>\<open>loadWalletState\<close>, lines 228 to 268. \<open>now\<close> is the clock in seconds. The four reads
  either all succeed, \<open>Loaded res0 res1 res3\<close> with the native balance, the transaction
  count and the token balance (read only when there is a token state), or fail with an
  exception text. The RPC client \<^verbatim>\<open>this.web3\<close> is there, so that the reads are made
  and \<^verbatim>\<open>loadWalletState\<close> itself does not throw.
\<close>

datatype load = Loaded int nat int | LoadFailed string

definition loadWalletState :: "FaucetConfig \<Rightarrow> int \<Rightarrow> load \<Rightarrow> EthWeb3Manager \<Rightarrow> EthWeb3Manager" where
  "loadWalletState cfg now r s =
     updateFaucetStatus cfg
       (case r of
          Loaded res0 res1 res3 \<Rightarrow>
            (emit ReadWalletState s)
              \<lparr>lastWalletRefresh := now,
               walletState :=
                 \<lparr> ready = True,
                   nonce = res1,
                   balance = (if tokenState s \<noteq> None then res3 else res0),
                   nativeBalance = res0 \<rparr>\<rparr>
        | LoadFailed err \<Rightarrow>
            (emit ReadWalletState s)
              \<lparr>lastWalletRefresh := now,
               walletState := \<lparr>ready = False, nonce = 0, balance = 0, nativeBalance = 0\<rparr>\<rparr>)"

text \<open>\<^verbatim>\<open>getQueuedAmount\<close>, lines 357 to 363.\<close>

definition getQueuedAmount :: "EthWeb3Manager \<Rightarrow> int" where
  "getQueuedAmount s = foldl (\<lambda>totalPending claimTx. totalPending + amount claimTx) 0 (claimTxQueue s)"

text \<open>\<^verbatim>\<open>addClaimTransaction\<close>, lines 369 to 375; \<open>now\<close> is the clock in milliseconds.\<close>

definition addClaimTransaction ::
  "int \<Rightarrow> string \<Rightarrow> int \<Rightarrow> string \<Rightarrow> EthWeb3Manager \<Rightarrow> EthWeb3Manager \<times> ClaimTx" where
  "addClaimTransaction now tgt amt sessId s =
     (let claimTx = (new_ClaimTx now tgt amt sessId None)\<lparr>queueIdx := Some (lastClaimTxIdx s)\<rparr>
      in (s\<lparr>lastClaimTxIdx := lastClaimTxIdx s + 1,
            claimTxQueue := claimTxQueue s @ [claimTx],
            queuedClaimTxs := addQueuedClaimTx (serialize claimTx) (queuedClaimTxs s)\<rparr>,
          claimTx))"

text \<open>
  \<^verbatim>\<open>getClaimTransaction\<close>, lines 377 to 396: the queue, then the pending claims, then the
  history, first match first. \<^verbatim>\<open>Object.values\<close> lists the history by ascending nonce.
\<close>

definition getClaimTransaction :: "string \<Rightarrow> EthWeb3Manager \<Rightarrow> ClaimTx option" where
  "getClaimTransaction sessId s =
     find (\<lambda>c. session c = sessId)
       (claimTxQueue s @ map snd (pendingTxQueue s)
          @ map snd (sort_key fst (historyTxDict s)))"

text \<open>
  \<^verbatim>\<open>buildEthTx\<close>, lines 398 to 438: the transaction data it signs. An upper-case
  \<^verbatim>\<open>0X\<close> at the start of the target becomes \<^verbatim>\<open>0x\<close>, the gas limit is the argument
  unless that is falsy. The fee fields, the signature and the hex string are the work of
  the libraries; the hex string, or the exception, is given with the attempt.
\<close>

definition buildEthTx ::
  "FaucetConfig \<Rightarrow> string \<Rightarrow> int \<Rightarrow> nat \<Rightarrow> calldata option \<Rightarrow> int option \<Rightarrow> event" where
  "buildEthTx cfg tgt amt n dat gasLimit =
     BuildEthTx (if take 2 tgt = ''0X'' then ''0x'' @ drop 2 tgt else tgt) amt n dat
       (case gasLimit of
          None \<Rightarrow> ethTxGasLimit cfg
        | Some g \<Rightarrow> (if g = 0 then ethTxGasLimit cfg else g))"

section \<open>The claim pipeline\<close>

text \<open>
  One pass of the \<^verbatim>\<open>try\<close> block in the \<^verbatim>\<open>do ... while\<close> loop of
  \<^verbatim>\<open>processQueueTx\<close> ends in one of three ways: \<^verbatim>\<open>buildTx\<close> throws;
  \<^verbatim>\<open>buildTx\<close> returns a hex string and \<^verbatim>\<open>sendTransaction\<close> throws;
  \<^verbatim>\<open>sendTransaction\<close> returns the transaction hash and the promise of the receipt.
  What the node answers to each pass, and to the \<^verbatim>\<open>loadWalletState\<close> after a failed
  pass, is given by the number of the pass (\<^verbatim>\<open>retryCount\<close>).
\<close>

datatype attempt = BuildFailed string | SendFailed string string | Submitted string string

record tx_env =
  attempts :: "nat \<Rightarrow> attempt"
  reloads :: "nat \<Rightarrow> int \<times> load"

text \<open>
  \<^verbatim>\<open>buildTx\<close>, lines 514 to 520: the claim takes the wallet's nonce, and the transaction
  is a token transfer when there is a token state, a plain transfer otherwise.
\<close>

definition buildTx :: "FaucetConfig \<Rightarrow> ClaimTx \<Rightarrow> EthWeb3Manager \<Rightarrow> ClaimTx \<times> event" where
  "buildTx cfg claimTx s =
     (let n = WalletState.nonce (walletState s)
      in (claimTx\<lparr>nonce := Some n\<rparr>,
          (case tokenState s of
             Some tok \<Rightarrow>
               buildEthTx cfg (address tok) 0 n
                 (Some (TransferData (target claimTx) (amount claimTx))) None
           | None \<Rightarrow> buildEthTx cfg (target claimTx) (amount claimTx) n None None)))"

text \<open>
  The \<^verbatim>\<open>try\<close> block of the loop, lines 523 to 527: \<open>Inl\<close> is the exception it
  throws, \<open>Inr\<close> the hash of a submitted transaction, with which \<^verbatim>\<open>txPromise\<close> is set.
  Exceptions are \<^verbatim>\<open>Error\<close> objects, which are truthy, and stand here as their text.
\<close>

definition sendAttempt ::
  "FaucetConfig \<Rightarrow> attempt \<Rightarrow> ClaimTx \<Rightarrow> EthWeb3Manager
     \<Rightarrow> EthWeb3Manager \<times> ClaimTx \<times> (string + string)" where
  "sendAttempt cfg att claimTx s =
     (let (c1, tx) = buildTx cfg claimTx s;
          s1 = emit tx s
      in case att of
           BuildFailed ex \<Rightarrow> (s1, c1, Inl ex)
         | SendFailed hex ex \<Rightarrow>
             (emit (SendTransaction hex) s1, c1\<lparr>txhex := Some hex\<rparr>, Inl ex)
         | Submitted hex hash \<Rightarrow>
             (emit (SendTransaction hex) s1, c1\<lparr>txhex := Some hex, txhash := Some hash\<rparr>,
              Inr hash))"

text \<open>
  The loop of lines 522 to 537, entered with \<open>retry = 0\<close> and no \<open>txError\<close>. The
  \<^verbatim>\<open>catch\<close> block keeps the first exception, sleeps two seconds and reloads the wallet
  state; the loop goes on while \<^verbatim>\<open>retryCount++ < 3\<close>. The result is \<open>Inr hash\<close>
  when a pass has set \<^verbatim>\<open>txPromise\<close>, and \<open>Inl txError\<close> when
  \<^verbatim>\<open>throw txError\<close> is reached.
\<close>

function submitLoop ::
  "FaucetConfig \<Rightarrow> tx_env \<Rightarrow> nat \<Rightarrow> string option \<Rightarrow> ClaimTx \<Rightarrow> EthWeb3Manager
     \<Rightarrow> EthWeb3Manager \<times> ClaimTx \<times> (string + string)" where
  "submitLoop cfg env retry txError claimTx s =
     (case sendAttempt cfg (attempts env retry) claimTx s of
        (s2, c2, Inr hash) \<Rightarrow> (s2, c2, Inr hash)
      | (s2, c2, Inl ex) \<Rightarrow>
          (let txError' = (case txError of None \<Rightarrow> ex | Some first \<Rightarrow> first);
               s3 = emit (Sleep 2000) s2;
               s4 = loadWalletState cfg (fst (reloads env retry)) (snd (reloads env retry)) s3
           in if retry < 3
              then submitLoop cfg env (retry + 1) (Some txError') c2 s4
              else (s4, c2, Inl txError')))"
  by pat_completeness auto
termination
  by (relation "measure (\<lambda>(cfg, env, retry, txError, claimTx, s). 3 - retry)") auto

declare submitLoop.simps [simp del]

text \<open>
  \<^verbatim>\<open>processQueueTx\<close>, lines 486 to 550: the two guards, the loop, and what follows a
  submission. In the source the key of the pending entry is \<^verbatim>\<open>claimTx.txhash\<close>, which
  the submitting pass has just set to \<open>hash\<close>; the entry is the claim object, whose status
  becomes \<^verbatim>\<open>PENDING\<close> two lines later. The \<^verbatim>\<open>catch\<close> of lines 584 to 588 takes
  the \<^verbatim>\<open>throw txError\<close>. The result is the manager and the claim object.
\<close>

definition processQueueTx ::
  "FaucetConfig \<Rightarrow> tx_env \<Rightarrow> ClaimTx \<Rightarrow> EthWeb3Manager \<Rightarrow> EthWeb3Manager \<times> ClaimTx" where
  "processQueueTx cfg env claimTx s =
     (let ws = walletState s
      in if \<not> ready ws then
           (emit (Emit (session claimTx) ''failed'') s
              \<lparr>queuedClaimTxs := removeQueuedClaimTx (session claimTx) (queuedClaimTxs s)\<rparr>,
            claimTx\<lparr>failReason := Some ''Network RPC is currently unreachable.'',
                    status := FAILED\<rparr>)
         else if \<not> ready ws
                 \<or> balance ws - spareFundsAmount cfg < amount claimTx
                 \<or> nativeBalance ws \<le> ethTxGasLimit cfg * ethTxMaxFee cfg then
           (emit (Emit (session claimTx) ''failed'') s
              \<lparr>queuedClaimTxs := removeQueuedClaimTx (session claimTx) (queuedClaimTxs s)\<rparr>,
            claimTx\<lparr>failReason := Some ''Faucet wallet is out of funds.'',
                    status := FAILED\<rparr>)
         else
           (case submitLoop cfg env 0 None (claimTx\<lparr>status := PROCESSING\<rparr>)
                   (emit (Emit (session claimTx) ''processing'') s) of
              (s1, c1, Inl txError) \<Rightarrow>
                (emit (Emit (session c1) ''failed'') s1,
                 c1\<lparr>failReason := Some (''Processing Exception: '' @ txError),
                    status := FAILED\<rparr>)
            | (s1, c1, Inr hash) \<Rightarrow>
                (let ws1 = walletState s1;
                     ws2 = ws1\<lparr>WalletState.nonce := WalletState.nonce ws1 + 1,
                               balance := balance ws1 - amount c1\<rparr>;
                     ws3 = (if tokenState s1 = None
                            then ws2\<lparr>nativeBalance := nativeBalance ws2 - amount c1\<rparr>
                            else ws2);
                     s2 = updateFaucetStatus cfg (s1\<lparr>walletState := ws3\<rparr>);
                     c2 = c1\<lparr>status := PENDING\<rparr>
                 in (emit (Emit (session c2) ''pending'')
                       (s2\<lparr>pendingTxQueue := AList.update hash c2 (pendingTxQueue s2),
                           queuedClaimTxs :=
                             removeQueuedClaimTx (session c2) (queuedClaimTxs s2)\<rparr>),
                     c2))))"

text \<open>
  One turn of the \<^verbatim>\<open>while\<close> loop of \<^verbatim>\<open>processQueue\<close>, lines 446 to 458:
  \<open>None\<close> when the loop ends (its condition is false, or the \<^verbatim>\<open>break\<close> for missing
  funds is taken), otherwise the head of the queue is taken off and processed.
\<close>

definition processQueueStep ::
  "FaucetConfig \<Rightarrow> tx_env \<Rightarrow> EthWeb3Manager \<Rightarrow> (EthWeb3Manager \<times> ClaimTx) option" where
  "processQueueStep cfg env s =
     (case claimTxQueue s of
        [] \<Rightarrow> None
      | claimTx # rest \<Rightarrow>
          (let ws = walletState s
           in if \<not> length (pendingTxQueue s) < ethMaxPending cfg then None
              else if ethQueueNoFunds cfg
                      \<and> (\<not> ready ws
                         \<or> balance ws - spareFundsAmount cfg < amount claimTx
                         \<or> nativeBalance ws \<le> ethTxGasLimit cfg * ethTxMaxFee cfg) then None
              else Some (processQueueTx cfg env claimTx
                           (s\<lparr>claimTxQueue := rest,
                              lastProcessedClaimTxIdx := queueIdx claimTx\<rparr>))))"

section \<open>Receipts\<close>

text \<open>
  A promise settles with a value or with an exception, again as its text. A regular
  expression without operators, as in \<^verbatim>\<open>ex.toString().match(/CONNECTION ERROR/)\<close>,
  matches when the text contains it.
\<close>

datatype 'a settled = Resolved 'a | Rejected string

fun starts_with :: "string \<Rightarrow> string \<Rightarrow> bool" where
  "starts_with [] txt = True"
| "starts_with (p # ps) [] = False"
| "starts_with (p # ps) (c # cs) = (p = c \<and> starts_with ps cs)"

fun str_match :: "string \<Rightarrow> string \<Rightarrow> bool" where
  "str_match pat [] = starts_with pat []"
| "str_match pat (c # cs) = (starts_with pat (c # cs) \<or> str_match pat cs)"

text \<open>
  \<^verbatim>\<open>awaitTransactionReceipt\<close>, lines 591 to 609. Each poll sleeps 30 seconds and asks
  for the receipt: there is none yet, there is one, or the call throws. The answers of the
  node are a list; a list that ends before a receipt or a fatal exception stands for a
  poll that has not returned, \<open>None\<close>.
\<close>

datatype poll = PollPending | PollReceipt TransactionReceipt | PollThrows string

fun awaitTransactionReceipt ::
  "poll list \<Rightarrow> EthWeb3Manager \<Rightarrow> (TransactionReceipt settled \<times> EthWeb3Manager) option" where
  "awaitTransactionReceipt [] s = None"
| "awaitTransactionReceipt (PollPending # polls) s =
     awaitTransactionReceipt polls (emit (Sleep 30000) s)"
| "awaitTransactionReceipt (PollReceipt receipt # polls) s =
     Some (Resolved receipt, emit (Sleep 30000) s)"
| "awaitTransactionReceipt (PollThrows ex # polls) s =
     (if str_match ''CONNECTION ERROR'' ex
      then awaitTransactionReceipt polls (emit (Sleep 30000) s)
      else Some (Rejected ex, emit (Sleep 30000) s))"

text \<open>
  The \<^verbatim>\<open>catch\<close> of lines 553 to 560 (and of lines 672 to 679): a promise rejected
  because the transaction was not mined in time is replaced by polling.
\<close>

definition orPollReceipt ::
  "TransactionReceipt settled \<Rightarrow> poll list \<Rightarrow> EthWeb3Manager
     \<Rightarrow> (TransactionReceipt settled \<times> EthWeb3Manager) option" where
  "orPollReceipt txPromise polls s =
     (case txPromise of
        Resolved receipt \<Rightarrow> Some (Resolved receipt, s)
      | Rejected ex \<Rightarrow>
          (if str_match ''Transaction was not mined within'' ex
           then awaitTransactionReceipt polls s
           else Some (Rejected ex, s)))"

text \<open>
  The two handlers of lines 561 to 577, for a claim whose hash is \<open>hash\<close>.
\<close>

definition onReceipt ::
  "string \<Rightarrow> TransactionReceipt \<Rightarrow> ClaimTx \<Rightarrow> EthWeb3Manager \<Rightarrow> EthWeb3Manager \<times> ClaimTx" where
  "onReceipt hash receipt claimTx s =
     (let c1 = claimTx\<lparr>txblock := Some (blockNumber receipt),
                       status := CONFIRMED,
                       txfee := effectiveGasPrice receipt * gasUsed receipt\<rparr>;
          ws = walletState s;
          ws1 = ws\<lparr>nativeBalance := nativeBalance ws - txfee c1\<rparr>;
          ws2 = (if tokenState s = None then ws1\<lparr>balance := balance ws1 - txfee c1\<rparr> else ws1)
      in (emit (AddClaimStats (session c1))
            (emit (Emit (session c1) ''confirmed'')
               (s\<lparr>pendingTxQueue := AList.delete hash (pendingTxQueue s),
                  walletState := ws2\<rparr>)),
          c1))"

definition onReceiptError ::
  "string \<Rightarrow> string \<Rightarrow> ClaimTx \<Rightarrow> EthWeb3Manager \<Rightarrow> EthWeb3Manager \<times> ClaimTx" where
  "onReceiptError hash error claimTx s =
     (emit (Emit (session claimTx) ''failed'')
        (s\<lparr>pendingTxQueue := AList.delete hash (pendingTxQueue s)\<rparr>),
      claimTx\<lparr>failReason := Some (''Transaction Error: '' @ error), status := FAILED\<rparr>)"

text \<open>
  The receipt watcher that \<^verbatim>\<open>processQueueTx\<close> leaves behind, lines 553 to 583, run
  when the promise of the receipt settles. It belongs to a submitted claim, which has a
  hash and a nonce; there is none (\<open>None\<close>) for another claim, and it has not finished
  (\<open>None\<close>) while the polling has not. The last handler files the claim in the history
  under its nonce and sets the timer that deletes that entry.
\<close>

definition receiptWatcher ::
  "TransactionReceipt settled \<Rightarrow> poll list \<Rightarrow> ClaimTx \<Rightarrow> EthWeb3Manager
     \<Rightarrow> (EthWeb3Manager \<times> ClaimTx) option" where
  "receiptWatcher txPromise polls claimTx s =
     (case (txhash claimTx, nonce claimTx) of
        (Some hash, Some n) \<Rightarrow>
          (case orPollReceipt txPromise polls s of
             None \<Rightarrow> None
           | Some (outcome, s1) \<Rightarrow>
               (let (s2, c2) =
                      (case outcome of
                         Resolved receipt \<Rightarrow> onReceipt hash receipt claimTx s1
                       | Rejected error \<Rightarrow> onReceiptError hash error claimTx s1)
                in Some (s2\<lparr>historyTxDict := AList.update n c2 (historyTxDict s2),
                            timeouts := timeouts s2 @ [(30 * 60 * 1000, EvictHistory n)]\<rparr>,
                         c2)))
      | _ \<Rightarrow> None)"

text \<open>What a timer does when it runs: line 581.\<close>

fun runTimer :: "timer \<Rightarrow> EthWeb3Manager \<Rightarrow> EthWeb3Manager" where
  "runTimer (EvictHistory n) s = s\<lparr>historyTxDict := AList.delete n (historyTxDict s)\<rparr>"

section \<open>The refill controller\<close>

text \<open>
  What the outside answers during one call of \<^verbatim>\<open>tryRefillWallet\<close>:
  \<^verbatim>\<open>getUnclaimedBalance()\<close> of the reward limiter, the call of the allowance function,
  the balance of the vault, the signed transaction of \<^verbatim>\<open>buildEthTx\<close>, the hash from
  \<^verbatim>\<open>sendTransaction\<close>, how the promise of the receipt \<^verbatim>\<open>txResult[1]\<close> settles,
  the polls of the receipt, the clock at line 667, and the reload of line 688.
\<close>

record refill_env =
  unclaimedBalance :: int
  allowance :: "int settled"
  vaultBalance :: "int settled"
  signedTx :: "string settled"
  sentTx :: "string settled"
  txReceipt :: "TransactionReceipt settled"
  receiptPolls :: "poll list"
  sentAt :: int
  reloaded :: "int \<times> load"

text \<open>JavaScript's truthiness of an optional number and of an optional string.\<close>

definition truthy_num :: "int option \<Rightarrow> bool" where
  "truthy_num v = (case v of None \<Rightarrow> False | Some x \<Rightarrow> x \<noteq> 0)"

definition truthy_str :: "string option \<Rightarrow> bool" where
  "truthy_str v = (case v of None \<Rightarrow> False | Some x \<Rightarrow> x \<noteq> [])"

text \<open>\<^verbatim>\<open>getCallArgs\<close>, lines 707 to 722 and 765 to 780.\<close>

definition getCallArgs :: "EthWeb3Manager \<Rightarrow> int \<Rightarrow> string list \<Rightarrow> callarg list" where
  "getCallArgs s amt args =
     map (\<lambda>arg. if arg = ''{walletAddr}'' then ArgText (walletAddr s)
                else if arg = ''{amount}'' then ArgAmount amt
                else if arg = ''{token}'' then ArgToken (map_option address (tokenState s))
                else ArgText arg) args"

text \<open>
  The end of \<^verbatim>\<open>refillWallet\<close> and of \<^verbatim>\<open>overflowWallet\<close>, lines 745 to 756 and
  783 to 794: the transaction is built and sent, and the nonce is incremented once the
  hash is there. \<open>Rejected\<close> is an exception thrown on the way.
\<close>

definition sendVaultTx ::
  "event \<Rightarrow> refill_env \<Rightarrow> EthWeb3Manager \<Rightarrow> EthWeb3Manager \<times> string settled" where
  "sendVaultTx tx env s =
     (case signedTx env of
        Rejected ex \<Rightarrow> (emit tx s, Rejected ex)
      | Resolved txHex \<Rightarrow>
          (case sentTx env of
             Rejected ex \<Rightarrow> (emit (SendTransaction txHex) (emit tx s), Rejected ex)
           | Resolved txHash \<Rightarrow>
               (let s1 = emit (SendTransaction txHex) (emit tx s);
                    ws = walletState s1
                in (s1\<lparr>walletState := ws\<lparr>WalletState.nonce := WalletState.nonce ws + 1\<rparr>\<rparr>,
                    Resolved txHash))))"

text \<open>
  \<^verbatim>\<open>refillWallet\<close>, lines 699 to 757. \<^verbatim>\<open>BigInt(requestAmount)\<close> is exact on a
  whole number of any size; the dust balance is converted through its string (line 737).
\<close>

definition refillWallet ::
  "FaucetConfig \<Rightarrow> RefillContract \<Rightarrow> refill_env \<Rightarrow> EthWeb3Manager
     \<Rightarrow> EthWeb3Manager \<times> string settled" where
  "refillWallet cfg rc env s =
     (let refillAmount = requestAmount rc;
          afterAllowance =
            (if truthy_str (allowanceFn rc) then
               (case allowance env of
                  Rejected ex \<Rightarrow> Rejected ex
                | Resolved refillAllowance \<Rightarrow>
                    (if refillAllowance = 0
                     then Rejected ''no withdrawable funds from refill contract''
                     else Resolved (if refillAmount > refillAllowance
                                    then refillAllowance else refillAmount)))
             else Resolved refillAmount)
      in case afterAllowance of
           Rejected ex \<Rightarrow> (s, Rejected ex)
         | Resolved refillAmount1 \<Rightarrow>
             (let afterBalance =
                    (if checkContractBalance rc then
                       (case vaultBalance env of
                          Rejected ex \<Rightarrow> Rejected ex
                        | Resolved contractBalance \<Rightarrow>
                            (case (if truthy_num (contractDustBalance rc)
                                   then (case contractDustBalance rc of
                                           Some d \<Rightarrow> configBigInt d
                                         | None \<Rightarrow> Inr 1000000000)
                                   else Inr 1000000000) of
                               Inl ex \<Rightarrow> Rejected ex
                             | Inr dustBalance \<Rightarrow>
                                 (if contractBalance \<le> dustBalance
                                  then Rejected ''refill contract is out of funds''
                                  else Resolved (if refillAmount1 > contractBalance
                                                 then contractBalance else refillAmount1))))
                     else Resolved refillAmount1)
              in case afterBalance of
                   Rejected ex \<Rightarrow> (s, Rejected ex)
                 | Resolved refillAmount2 \<Rightarrow>
                     sendVaultTx
                       (buildEthTx cfg (contract rc) 0 (WalletState.nonce (walletState s))
                          (Some (MethodCall (withdrawFn rc)
                                   (getCallArgs s refillAmount2
                                      (case withdrawFnArgs rc of
                                         Some args \<Rightarrow> args | None \<Rightarrow> [''{amount}'']))))
                          (withdrawGasLimit rc))
                       env s))"

text \<open>\<^verbatim>\<open>overflowWallet\<close>, lines 759 to 795.\<close>

definition overflowWallet ::
  "FaucetConfig \<Rightarrow> RefillContract \<Rightarrow> int \<Rightarrow> refill_env \<Rightarrow> EthWeb3Manager
     \<Rightarrow> EthWeb3Manager \<times> string settled" where
  "overflowWallet cfg rc amt env s =
     sendVaultTx
       (buildEthTx cfg (contract rc) amt (WalletState.nonce (walletState s))
          (if truthy_str (depositFn rc)
           then (case depositFn rc of
                   Some fn \<Rightarrow>
                     Some (MethodCall fn
                             (getCallArgs s amt
                                (case depositFnArgs rc of Some args \<Rightarrow> args | None \<Rightarrow> [])))
                 | None \<Rightarrow> None)
           else None)
          (withdrawGasLimit rc))
       env s"

text \<open>
  The choice of lines 650 to 654; the strings \<^verbatim>\<open>"overflow"\<close> and \<^verbatim>\<open>"refill"\<close> of
  the source are the two constructors, \<^verbatim>\<open>null\<close> is \<open>None\<close>. The test of
  \<^verbatim>\<open>overflowBalance\<close> is one of truthiness. A truthy \<^verbatim>\<open>overflowBalance\<close> is
  converted at line 651; \<^verbatim>\<open>triggerBalance\<close> is converted at line 653, which is
  reached when the test of line 651 is false. Both lines stand before the \<^verbatim>\<open>try\<close>
  of line 660: \<open>Inl\<close> is the exception of a conversion, which leaves
  \<^verbatim>\<open>tryRefillWallet\<close>.
\<close>

datatype refill_action = OVERFLOW | REFILL

definition refillAction :: "RefillContract \<Rightarrow> int \<Rightarrow> string + refill_action option" where
  "refillAction rc walletBalance =
     (case (if truthy_num (overflowBalance rc)
            then (case overflowBalance rc of
                    Some ob \<Rightarrow>
                      (case configBigInt ob of
                         Inl ex \<Rightarrow> Inl ex
                       | Inr b \<Rightarrow> Inr (walletBalance > b))
                  | None \<Rightarrow> Inr False)
            else Inr False) of
        Inl ex \<Rightarrow> Inl ex
      | Inr True \<Rightarrow> Inr (Some OVERFLOW)
      | Inr False \<Rightarrow>
          (case configBigInt (triggerBalance rc) of
             Inl ex \<Rightarrow> Inl ex
           | Inr b \<Rightarrow> Inr (if walletBalance < b then Some REFILL else None)))"

text \<open>
  Lines 662 to 665, inside the \<^verbatim>\<open>try\<close>: an exception of the conversion at line 665
  is caught at line 693. Reading \<^verbatim>\<open>overflowBalance\<close> when it is absent would throw a
  TypeError.
\<close>

definition sendRefillTx ::
  "FaucetConfig \<Rightarrow> RefillContract \<Rightarrow> refill_env \<Rightarrow> refill_action \<Rightarrow> int \<Rightarrow> EthWeb3Manager
     \<Rightarrow> EthWeb3Manager \<times> string settled" where
  "sendRefillTx cfg rc env action walletBalance s =
     (case action of
        REFILL \<Rightarrow> refillWallet cfg rc env s
      | OVERFLOW \<Rightarrow>
          (case overflowBalance rc of
             Some ob \<Rightarrow>
               (case configBigInt ob of
                  Inl ex \<Rightarrow> (s, Rejected ex)
                | Inr b \<Rightarrow> overflowWallet cfg rc (walletBalance - b) env s)
           | None \<Rightarrow> (s, Rejected ''TypeError'')))"

text \<open>
  The rest of the \<^verbatim>\<open>try\<close>, lines 667 to 692, and the \<^verbatim>\<open>catch\<close> of lines
  693 to 696, given what sending the transaction returned. Every exception inside the
  \<^verbatim>\<open>try\<close> reaches the \<^verbatim>\<open>catch\<close>, which clears the guard. When the receipt is
  there and its status is true, the handlers of lines 683 to 692 are attached to
  \<^verbatim>\<open>txResult[1]\<close>: the first one, which clears the guard and reloads the wallet
  state, runs when that promise is resolved; when it is rejected only the second one runs,
  which writes a log line. \<open>None\<close>: the polling has not returned.
\<close>

definition awaitRefillTx ::
  "FaucetConfig \<Rightarrow> refill_env \<Rightarrow> EthWeb3Manager \<times> string settled \<Rightarrow> EthWeb3Manager option" where
  "awaitRefillTx cfg env txResult =
     (case txResult of
        (s1, Rejected ex) \<Rightarrow> Some (s1\<lparr>walletRefilling := False\<rparr>)
      | (s1, Resolved txHash) \<Rightarrow>
          (case orPollReceipt (txReceipt env) (receiptPolls env)
                  (s1\<lparr>lastWalletRefill := Some (sentAt env)\<rparr>) of
             None \<Rightarrow> None
           | Some (Rejected ex, s2) \<Rightarrow> Some (s2\<lparr>walletRefilling := False\<rparr>)
           | Some (Resolved receipt, s2) \<Rightarrow>
               (if \<not> TransactionReceipt.status receipt
                then Some (s2\<lparr>walletRefilling := False\<rparr>)
                else (case txReceipt env of
                        Resolved receipt' \<Rightarrow>
                          Some (loadWalletState cfg (fst (reloaded env)) (snd (reloaded env))
                                  (s2\<lparr>walletRefilling := False\<rparr>))
                      | Rejected err \<Rightarrow> Some s2))))"

text \<open>The \<^verbatim>\<open>try\<close> of lines 660 to 696, entered with \<^verbatim>\<open>walletRefilling = true\<close>.\<close>

definition refillAttempt ::
  "FaucetConfig \<Rightarrow> RefillContract \<Rightarrow> refill_env \<Rightarrow> refill_action \<Rightarrow> int \<Rightarrow> EthWeb3Manager
     \<Rightarrow> EthWeb3Manager option" where
  "refillAttempt cfg rc env action walletBalance s =
     awaitRefillTx cfg env (sendRefillTx cfg rc env action walletBalance s)"

text \<open>
  \<^verbatim>\<open>tryRefillWallet\<close>, lines 637 to 697; \<open>now\<close> is the clock in seconds. When a
  conversion of line 651 or 653 throws, the call ends with that exception: the time of
  the try is recorded (line 647), \<^verbatim>\<open>walletRefilling\<close> is not yet set (line 659), and
  nothing is sent.
\<close>

definition tryRefillWallet ::
  "FaucetConfig \<Rightarrow> refill_env \<Rightarrow> int \<Rightarrow> EthWeb3Manager \<Rightarrow> EthWeb3Manager option" where
  "tryRefillWallet cfg env now s =
     (case ethRefillContract cfg of
        None \<Rightarrow> Some s
      | Some rc \<Rightarrow>
          (if walletRefilling s then Some s
           else if truthy_num (lastWalletRefillTry s)
                   \<and> (case lastWalletRefillTry s of Some t \<Rightarrow> now - t < 60 | None \<Rightarrow> False)
                then Some s
           else if truthy_num (lastWalletRefill s) \<and> truthy_num (cooldownTime rc)
                   \<and> (case (lastWalletRefill s, cooldownTime rc) of
                         (Some t, Some cd) \<Rightarrow> now - t < cd
                       | _ \<Rightarrow> False)
                then Some s
           else (let s1 = s\<lparr>lastWalletRefillTry := Some now\<rparr>;
                     walletBalance =
                       balance (walletState s1) - unclaimedBalance env - getQueuedAmount s1
                 in case refillAction rc walletBalance of
                      Inl ex \<Rightarrow> Some (emit (Uncaught ex) s1)
                    | Inr None \<Rightarrow> Some s1
                    | Inr (Some action) \<Rightarrow>
                        refillAttempt cfg rc env action walletBalance
                          (s1\<lparr>walletRefilling := True\<rparr>))))"

section \<open>Runs of the manager\<close>

text \<open>
  The manager as the constructor leaves it when the durable queue is empty (the
  initializers of lines 116 to 125), with the wallet state of the first
  \<^verbatim>\<open>loadWalletState\<close>.
\<close>

definition initialManager :: "string \<Rightarrow> WalletState \<Rightarrow> FaucetTokenState option \<Rightarrow> EthWeb3Manager" where
  "initialManager addr ws tok =
     \<lparr> walletAddr = addr,
       walletState = ws,
       tokenState = tok,
       claimTxQueue = [],
       pendingTxQueue = [],
       historyTxDict = [],
       lastWalletRefresh = 0,
       lastClaimTxIdx = 1,
       lastProcessedClaimTxIdx = Some 0,
       lastWalletRefill = None,
       lastWalletRefillTry = None,
       walletRefilling = False,
       queuedClaimTxs = [],
       timeouts = [],
       effects = [] \<rparr>"

text \<open>
  An asynchronous function gives way to other code at each \<^verbatim>\<open>await\<close>, and the
  handlers of a promise run on turns of their own; between two such points the code runs
  alone. A call of \<^verbatim>\<open>processQueueTx\<close> that has passed the guards is suspended at one
  of four places in its loop: at \<^verbatim>\<open>await buildTx()\<close> (line 524), at
  \<^verbatim>\<open>await this.sendTransaction(...)\<close> (line 525), at
  \<^verbatim>\<open>await this.sleepPromise(2000)\<close> (line 532) and at
  \<^verbatim>\<open>await this.loadWalletState()\<close> (line 533). While it is suspended it holds the
  claim, which line 455 has taken off the queue, and its local variables
  \<^verbatim>\<open>retryCount\<close> and \<^verbatim>\<open>txError\<close>.
\<close>

datatype phase = AwaitBuild | AwaitSend | AwaitSleep | AwaitReload

record in_flight =
  procClaim :: ClaimTx
  procRetry :: nat
  procError :: "string option"
  procPhase :: phase

text \<open>
  The state of a run: the manager; the call of \<^verbatim>\<open>processQueueTx\<close> that is under
  way, if there is one (\<^verbatim>\<open>processQueue\<close> awaits it, and \<^verbatim>\<open>queueProcessing\<close>
  keeps a second \<^verbatim>\<open>processQueue\<close> from starting); the claims whose receipt watcher
  (lines 553 to 583) waits for the promise of the receipt, oldest first; and the claims
  whose watcher has run the handler of lines 561 to 577 and not yet its last handler,
  lines 578 to 583.
\<close>

record run_state =
  manager :: EthWeb3Manager
  processing :: "in_flight option"
  watching :: "ClaimTx list"
  settling :: "ClaimTx list"

definition startRun :: "EthWeb3Manager \<Rightarrow> run_state" where
  "startRun s = \<lparr>manager = s, processing = None, watching = [], settling = []\<rparr>"

text \<open>
  \<^verbatim>\<open>processQueueTx\<close> from its call to its first \<^verbatim>\<open>await\<close>, lines 487 to 524: a
  guard that fails ends the call; otherwise the claim is announced as processing and
  \<^verbatim>\<open>buildTx()\<close> is called, which gives the claim the nonce of the wallet.
\<close>

definition enterProcessQueueTx ::
  "FaucetConfig \<Rightarrow> ClaimTx \<Rightarrow> EthWeb3Manager \<Rightarrow> EthWeb3Manager \<times> in_flight option" where
  "enterProcessQueueTx cfg claimTx s =
     (let ws = walletState s
      in if \<not> ready ws then
           (emit (Emit (session claimTx) ''failed'') s
              \<lparr>queuedClaimTxs := removeQueuedClaimTx (session claimTx) (queuedClaimTxs s)\<rparr>,
            None)
         else if \<not> ready ws
                 \<or> balance ws - spareFundsAmount cfg < amount claimTx
                 \<or> nativeBalance ws \<le> ethTxGasLimit cfg * ethTxMaxFee cfg then
           (emit (Emit (session claimTx) ''failed'') s
              \<lparr>queuedClaimTxs := removeQueuedClaimTx (session claimTx) (queuedClaimTxs s)\<rparr>,
            None)
         else
           (let s1 = emit (Emit (session claimTx) ''processing'') s;
                (c1, tx) = buildTx cfg (claimTx\<lparr>status := PROCESSING\<rparr>) s1
            in (emit tx s1,
                Some \<lparr>procClaim = c1, procRetry = 0, procError = None,
                      procPhase = AwaitBuild\<rparr>)))"

text \<open>
  One turn of the loop of \<^verbatim>\<open>processQueue\<close>, lines 446 to 457, up to the first
  \<^verbatim>\<open>await\<close> inside \<^verbatim>\<open>processQueueTx\<close>. There is no such turn (\<open>None\<close>) while a
  call of \<^verbatim>\<open>processQueueTx\<close> is under way, nor when the loop ends.
\<close>

definition takeNext :: "FaucetConfig \<Rightarrow> run_state \<Rightarrow> run_state option" where
  "takeNext cfg p =
     (case processing p of
        Some f \<Rightarrow> None
      | None \<Rightarrow>
          (case claimTxQueue (manager p) of
             [] \<Rightarrow> None
           | claimTx # rest \<Rightarrow>
               (let s = manager p;
                    ws = walletState s
                in if \<not> length (pendingTxQueue s) < ethMaxPending cfg then None
                   else if ethQueueNoFunds cfg
                           \<and> (\<not> ready ws
                              \<or> balance ws - spareFundsAmount cfg < amount claimTx
                              \<or> nativeBalance ws \<le> ethTxGasLimit cfg * ethTxMaxFee cfg)
                   then None
                   else (let (s', f) =
                               enterProcessQueueTx cfg claimTx
                                 (s\<lparr>claimTxQueue := rest,
                                    lastProcessedClaimTxIdx := queueIdx claimTx\<rparr>)
                         in Some (p\<lparr>manager := s', processing := f\<rparr>)))))"

text \<open>
  The \<^verbatim>\<open>catch\<close> of the loop up to its \<^verbatim>\<open>await\<close>, lines 529 to 532: the first
  exception is kept and the sleep of two seconds begins.
\<close>

definition catchPass :: "string \<Rightarrow> in_flight \<Rightarrow> run_state \<Rightarrow> run_state" where
  "catchPass ex f p =
     p\<lparr>manager := emit (Sleep 2000) (manager p),
       processing :=
         Some (f\<lparr>procError := Some (case procError f of None \<Rightarrow> ex | Some first \<Rightarrow> first),
                 procPhase := AwaitSleep\<rparr>)\<rparr>"

text \<open>
  The promise of \<^verbatim>\<open>buildTx()\<close> settles (line 524): with the hex string, which is
  handed to \<^verbatim>\<open>sendTransaction\<close> (line 525), or with an exception.
\<close>

definition buildSettles :: "string settled \<Rightarrow> run_state \<Rightarrow> run_state option" where
  "buildSettles r p =
     (case processing p of
        None \<Rightarrow> None
      | Some f \<Rightarrow>
          (if procPhase f \<noteq> AwaitBuild then None
           else Some (case r of
                        Resolved hex \<Rightarrow>
                          p\<lparr>manager := emit (SendTransaction hex) (manager p),
                            processing :=
                              Some (f\<lparr>procClaim := (procClaim f)\<lparr>txhex := Some hex\<rparr>,
                                      procPhase := AwaitSend\<rparr>)\<rparr>
                      | Rejected ex \<Rightarrow> catchPass ex f p)))"

text \<open>
  The promise of \<^verbatim>\<open>sendTransaction\<close> settles (line 525). With the hash the loop is
  left, and lines 526 to 553 run without another \<^verbatim>\<open>await\<close>: the wallet state is
  updated, the claim is filed as pending, and its receipt watcher is attached.
\<close>

definition sendSettles :: "FaucetConfig \<Rightarrow> string settled \<Rightarrow> run_state \<Rightarrow> run_state option" where
  "sendSettles cfg r p =
     (case processing p of
        None \<Rightarrow> None
      | Some f \<Rightarrow>
          (if procPhase f \<noteq> AwaitSend then None
           else Some (case r of
                        Rejected ex \<Rightarrow> catchPass ex f p
                      | Resolved hash \<Rightarrow>
                          (let s1 = manager p;
                               c1 = (procClaim f)\<lparr>txhash := Some hash\<rparr>;
                               ws1 = walletState s1;
                               ws2 = ws1\<lparr>WalletState.nonce := WalletState.nonce ws1 + 1,
                                         balance := balance ws1 - amount c1\<rparr>;
                               ws3 = (if tokenState s1 = None
                                      then ws2\<lparr>nativeBalance := nativeBalance ws2 - amount c1\<rparr>
                                      else ws2);
                               s2 = updateFaucetStatus cfg (s1\<lparr>walletState := ws3\<rparr>);
                               c2 = c1\<lparr>status := PENDING\<rparr>
                           in p\<lparr>manager :=
                                  emit (Emit (session c2) ''pending'')
                                    (s2\<lparr>pendingTxQueue := AList.update hash c2 (pendingTxQueue s2),
                                        queuedClaimTxs :=
                                          removeQueuedClaimTx (session c2) (queuedClaimTxs s2)\<rparr>),
                                processing := None,
                                watching := watching p @ [c2]\<rparr>))))"

text \<open>
  The sleep is over (line 532), and \<^verbatim>\<open>loadWalletState()\<close> is called (line 533);
  what that call does is taken as a whole when its promise settles.
\<close>

definition sleepEnds :: "run_state \<Rightarrow> run_state option" where
  "sleepEnds p =
     (case processing p of
        None \<Rightarrow> None
      | Some f \<Rightarrow>
          (if procPhase f \<noteq> AwaitSleep then None
           else Some (p\<lparr>processing := Some (f\<lparr>procPhase := AwaitReload\<rparr>)\<rparr>)))"

text \<open>
  The promise of \<^verbatim>\<open>loadWalletState()\<close> settles (line 533), the wallet state being
  loaded. Then the condition of the loop is tested (line 535): while
  \<^verbatim>\<open>retryCount++ < 3\<close> holds, \<^verbatim>\<open>buildTx()\<close> is called again; otherwise
  \<^verbatim>\<open>throw txError\<close> reaches the \<^verbatim>\<open>catch\<close> of lines 584 to 588, which fails the
  claim and ends the call.
\<close>

definition reloadSettles :: "FaucetConfig \<Rightarrow> int \<Rightarrow> load \<Rightarrow> run_state \<Rightarrow> run_state option" where
  "reloadSettles cfg now r p =
     (case processing p of
        None \<Rightarrow> None
      | Some f \<Rightarrow>
          (if procPhase f \<noteq> AwaitReload then None
           else Some (let s1 = loadWalletState cfg now r (manager p)
                      in if procRetry f < 3
                         then (let (c1, tx) = buildTx cfg (procClaim f) s1
                               in p\<lparr>manager := emit tx s1,
                                    processing :=
                                      Some (f\<lparr>procClaim := c1,
                                              procRetry := procRetry f + 1,
                                              procPhase := AwaitBuild\<rparr>)\<rparr>)
                         else p\<lparr>manager := emit (Emit (session (procClaim f)) ''failed'') s1,
                                processing := None\<rparr>)))"

text \<open>
  The receipt watcher in its two turns. On the first the promise of the receipt has
  settled, a promise that gave up being replaced by polling, and the handler of lines 561
  to 571 or that of lines 572 to 577 runs. The last handler, lines 578 to 583, runs on a
  turn of its own.
\<close>

definition receiptHandlers ::
  "TransactionReceipt settled \<Rightarrow> poll list \<Rightarrow> ClaimTx \<Rightarrow> EthWeb3Manager
     \<Rightarrow> (EthWeb3Manager \<times> ClaimTx) option" where
  "receiptHandlers txPromise polls claimTx s =
     (case txhash claimTx of
        None \<Rightarrow> None
      | Some hash \<Rightarrow>
          (case orPollReceipt txPromise polls s of
             None \<Rightarrow> None
           | Some (outcome, s1) \<Rightarrow>
               Some (case outcome of
                       Resolved receipt \<Rightarrow> onReceipt hash receipt claimTx s1
                     | Rejected error \<Rightarrow> onReceiptError hash error claimTx s1)))"

definition fileHistory :: "ClaimTx \<Rightarrow> EthWeb3Manager \<Rightarrow> EthWeb3Manager option" where
  "fileHistory claimTx s =
     (case nonce claimTx of
        None \<Rightarrow> None
      | Some n \<Rightarrow>
          Some (s\<lparr>historyTxDict := AList.update n claimTx (historyTxDict s),
                  timeouts := timeouts s @ [(30 * 60 * 1000, EvictHistory n)]\<rparr>))"

text \<open>
  The turns of a run, as the cooperative scheduler may order them:
  a call of \<^verbatim>\<open>addClaimTransaction\<close>;
  \<open>TakeNext\<close>, a turn of the loop of \<^verbatim>\<open>processQueue\<close>;
  \<open>BuildSettles\<close>, \<open>SendSettles\<close>, \<open>SleepEnds\<close> and \<open>ReloadSettles\<close>, which resume the
  call of \<^verbatim>\<open>processQueueTx\<close> at its four \<^verbatim>\<open>await\<close>s;
  \<open>ReceiptSettles\<close>, the first turn of the oldest watcher whose claim has that hash, and
  \<open>HistoryFiled\<close>, the last turn of the watcher that has waited longest for it;
  \<open>TimerRuns\<close>, the oldest timer;
  \<^verbatim>\<open>loadWalletState\<close>;
  and \<^verbatim>\<open>tryRefillWallet\<close>, which \<^verbatim>\<open>processQueue\<close> calls after its loop when the
  refill contract is configured and the wallet is ready (lines 466 and 467).
  \<^verbatim>\<open>loadWalletState\<close> and \<^verbatim>\<open>tryRefillWallet\<close> write neither the queue, the pending
  claims nor the history, and read none of them after their first \<^verbatim>\<open>await\<close>; each
  is one turn here. A turn that cannot be taken in a state gives \<open>None\<close>.
\<close>

datatype op =
    AddClaim int string int string
  | TakeNext
  | BuildSettles "string settled"
  | SendSettles "string settled"
  | SleepEnds
  | ReloadSettles int load
  | ReceiptSettles string "TransactionReceipt settled" "poll list"
  | HistoryFiled
  | TimerRuns
  | Reload int load
  | TryRefill refill_env int

fun step :: "FaucetConfig \<Rightarrow> op \<Rightarrow> run_state \<Rightarrow> run_state option" where
  "step cfg (AddClaim now tgt amt sessId) p =
     Some (p\<lparr>manager := fst (addClaimTransaction now tgt amt sessId (manager p))\<rparr>)"
| "step cfg TakeNext p = takeNext cfg p"
| "step cfg (BuildSettles r) p = buildSettles r p"
| "step cfg (SendSettles r) p = sendSettles cfg r p"
| "step cfg SleepEnds p = sleepEnds p"
| "step cfg (ReloadSettles now r) p = reloadSettles cfg now r p"
| "step cfg (ReceiptSettles hash txPromise polls) p =
     (case find (\<lambda>c. txhash c = Some hash) (watching p) of
        None \<Rightarrow> None
      | Some claimTx \<Rightarrow>
          (case receiptHandlers txPromise polls claimTx (manager p) of
             None \<Rightarrow> None
           | Some (s', c') \<Rightarrow>
               Some (p\<lparr>manager := s',
                       watching := remove1 claimTx (watching p),
                       settling := settling p @ [c']\<rparr>)))"
| "step cfg HistoryFiled p =
     (case settling p of
        [] \<Rightarrow> None
      | claimTx # rest \<Rightarrow>
          (case fileHistory claimTx (manager p) of
             None \<Rightarrow> None
           | Some s' \<Rightarrow> Some (p\<lparr>manager := s', settling := rest\<rparr>)))"
| "step cfg TimerRuns p =
     (case timeouts (manager p) of
        [] \<Rightarrow> None
      | (delay, t) # rest \<Rightarrow>
          Some (p\<lparr>manager := runTimer t ((manager p)\<lparr>timeouts := rest\<rparr>)\<rparr>))"
| "step cfg (Reload now r) p = Some (p\<lparr>manager := loadWalletState cfg now r (manager p)\<rparr>)"
| "step cfg (TryRefill env now) p =
     (if processing p \<noteq> None \<or> ethRefillContract cfg = None
         \<or> \<not> ready (walletState (manager p))
      then None
      else map_option (\<lambda>s'. p\<lparr>manager := s'\<rparr>) (tryRefillWallet cfg env now (manager p)))"

fun run :: "FaucetConfig \<Rightarrow> op list \<Rightarrow> run_state \<Rightarrow> run_state option" where
  "run cfg [] p = Some p"
| "run cfg (x # xs) p = (case step cfg x p of None \<Rightarrow> None | Some p' \<Rightarrow> run cfg xs p')"

text \<open>
  The turns that carry one call of \<^verbatim>\<open>processQueueTx\<close> from its first \<^verbatim>\<open>await\<close>
  to its end when nothing else runs in between, for the answers of the node of
  \<open>tx_env\<close>: the passes from \<open>retry\<close> on, \<open>fuel\<close> bounding their number.
\<close>

definition passTurns :: "tx_env \<Rightarrow> nat \<Rightarrow> op list" where
  "passTurns env retry =
     (case attempts env retry of
        BuildFailed ex \<Rightarrow>
          [BuildSettles (Rejected ex), SleepEnds,
           ReloadSettles (fst (reloads env retry)) (snd (reloads env retry))]
      | SendFailed hex ex \<Rightarrow>
          [BuildSettles (Resolved hex), SendSettles (Rejected ex), SleepEnds,
           ReloadSettles (fst (reloads env retry)) (snd (reloads env retry))]
      | Submitted hex hash \<Rightarrow> [BuildSettles (Resolved hex), SendSettles (Resolved hash)])"

fun loopTurns :: "tx_env \<Rightarrow> nat \<Rightarrow> nat \<Rightarrow> op list" where
  "loopTurns env 0 retry = []"
| "loopTurns env (Suc fuel) retry =
     passTurns env retry
     @ (case attempts env retry of
          Submitted hex hash \<Rightarrow> []
        | _ \<Rightarrow> loopTurns env fuel (retry + 1))"

text \<open>
  What \<^verbatim>\<open>processQueueTx\<close> does once its loop is left, lines 536 to 550 and the
  \<^verbatim>\<open>catch\<close> of lines 584 to 588, given what \<open>submitLoop\<close> returns.
\<close>

definition afterLoop ::
  "FaucetConfig \<Rightarrow> EthWeb3Manager \<times> ClaimTx \<times> (string + string) \<Rightarrow> EthWeb3Manager \<times> ClaimTx" where
  "afterLoop cfg r =
     (case r of
        (s1, c1, Inl txError) \<Rightarrow>
          (emit (Emit (session c1) ''failed'') s1,
           c1\<lparr>failReason := Some (''Processing Exception: '' @ txError),
              status := FAILED\<rparr>)
      | (s1, c1, Inr hash) \<Rightarrow>
          (let ws1 = walletState s1;
               ws2 = ws1\<lparr>WalletState.nonce := WalletState.nonce ws1 + 1,
                         balance := balance ws1 - amount c1\<rparr>;
               ws3 = (if tokenState s1 = None
                      then ws2\<lparr>nativeBalance := nativeBalance ws2 - amount c1\<rparr>
                      else ws2);
               s2 = updateFaucetStatus cfg (s1\<lparr>walletState := ws3\<rparr>);
               c2 = c1\<lparr>status := PENDING\<rparr>
           in (emit (Emit (session c2) ''pending'')
                 (s2\<lparr>pendingTxQueue := AList.update hash c2 (pendingTxQueue s2),
                     queuedClaimTxs :=
                       removeQueuedClaimTx (session c2) (queuedClaimTxs s2)\<rparr>),
               c2)))"

text \<open>
  The claims that \<^verbatim>\<open>getTransactionQueue()\<close> lists: queue, pending and history. Each
  session occurs at most once among them when their sessions are distinct.
\<close>

definition allClaims :: "EthWeb3Manager \<Rightarrow> ClaimTx list" where
  "allClaims s = claimTxQueue s @ map snd (pendingTxQueue s) @ map snd (historyTxDict s)"

definition sessionUnique :: "EthWeb3Manager \<Rightarrow> bool" where
  "sessionUnique s = distinct (map session (allClaims s))"

text \<open>
  The claims that suspended code holds and will file later: the claim of the call of
  \<^verbatim>\<open>processQueueTx\<close> that is under way, and the claims of the receipt watchers.
  With the queue and the history they are the claims that are or will be listed; a pending
  claim is one of those a watcher holds.
\<close>

definition heldClaims :: "run_state \<Rightarrow> ClaimTx list" where
  "heldClaims p =
     (case processing p of None \<Rightarrow> [] | Some f \<Rightarrow> [procClaim f]) @ watching p @ settling p"

definition liveClaims :: "run_state \<Rightarrow> ClaimTx list" where
  "liveClaims p =
     claimTxQueue (manager p) @ heldClaims p @ map snd (historyTxDict (manager p))"

definition liveUnique :: "run_state \<Rightarrow> bool" where
  "liveUnique p = distinct (map session (liveClaims p))"

text \<open>
  The pending claims have distinct hashes as keys, and each is filed under its own hash
  and is held by a watcher that waits for its receipt.
\<close>

definition pendingWatched :: "run_state \<Rightarrow> bool" where
  "pendingWatched p =
     (distinct (map fst (pendingTxQueue (manager p)))
      \<and> list_all (\<lambda>(hash, claimTx). txhash claimTx = Some hash \<and> claimTx \<in> set (watching p))
          (pendingTxQueue (manager p)))"

text \<open>
  A run in which \<^verbatim>\<open>addClaimTransaction\<close> is only called with a session that none of
  these claims has at that moment.
\<close>

fun freshAdds :: "FaucetConfig \<Rightarrow> op list \<Rightarrow> run_state \<Rightarrow> bool" where
  "freshAdds cfg [] p = True"
| "freshAdds cfg (x # xs) p =
     ((case x of
         AddClaim now tgt amt sessId \<Rightarrow> sessId \<notin> set (map session (liveClaims p))
       | _ \<Rightarrow> True)
      \<and> (case step cfg x p of None \<Rightarrow> True | Some p' \<Rightarrow> freshAdds cfg xs p'))"

section \<open>Observations\<close>

text \<open>
  Read off an attempt: whether it submitted the transaction, and the exception it threw
  otherwise. Read off a reload: the nonce it leaves in the wallet state.
\<close>

fun submitted :: "attempt \<Rightarrow> bool" where
  "submitted (Submitted hex hash) = True"
| "submitted (SendFailed hex ex) = False"
| "submitted (BuildFailed ex) = False"

fun thrown :: "attempt \<Rightarrow> string" where
  "thrown (BuildFailed ex) = ex"
| "thrown (SendFailed hex ex) = ex"
| "thrown (Submitted hex hash) = []"


text \<open>
  The passes of the submission loop as the events show them: a transaction built with a
  nonce, a sleep, a reload of the wallet state. The other events are dropped.
\<close>

datatype pass_event = Built nat | Slept nat | Reloaded

fun passEvents :: "event list \<Rightarrow> pass_event list" where
  "passEvents [] = []"
| "passEvents (BuildEthTx tgt amt n dat gasLimit # es) = Built n # passEvents es"
| "passEvents (Sleep ms # es) = Slept ms # passEvents es"
| "passEvents (ReadWalletState # es) = Reloaded # passEvents es"
| "passEvents (Emit sessId name # es) = passEvents es"
| "passEvents (SendTransaction hex # es) = passEvents es"
| "passEvents (SetFaucetStatus tier # es) = passEvents es"
| "passEvents (AddClaimStats sessId # es) = passEvents es"
| "passEvents (Uncaught ex # es) = passEvents es"

section \<open>Example inputs\<close>

text \<open>
  A faucet for the native coin with a gas limit of 21000 and a fee cap of 100 gwei, its
  manager with \<open>10 ^ 19\<close> wei at nonce 5, and a claim of \<open>10 ^ 18\<close> wei for the
  session \<open>s1\<close>; the same faucet for an ERC-20 token.
\<close>

definition exConfig :: FaucetConfig where
  "exConfig =
     \<lparr> faucetCoinType = NATIVE,
       faucetCoinContract = [],
       noFundsBalance = 100000000000000000,
       lowFundsBalance = 1000000000000000000,
       spareFundsAmount = 10000000000000000,
       ethTxGasLimit = 21000,
       ethTxMaxFee = 100000000000,
       ethMaxPending = 12,
       ethQueueNoFunds = False,
       ethRefillContract = None \<rparr>"

definition exManager :: EthWeb3Manager where
  "exManager =
     initialManager ''0xFa''
       \<lparr>ready = True, nonce = 5,
        balance = 10000000000000000000, nativeBalance = 10000000000000000000\<rparr>
       None"

definition exClaim :: ClaimTx where
  "exClaim = snd (addClaimTransaction 1700000000000 ''0xA1'' 1000000000000000000 ''s1'' exManager)"

definition exTokenConfig :: FaucetConfig where
  "exTokenConfig = exConfig\<lparr>faucetCoinType := ERC20, faucetCoinContract := ''0xC0''\<rparr>"

text \<open>
  Answers of the node: the first submission is rejected and the reload finds nonce 7, the
  second submission is accepted; and a node that rejects every submission.
\<close>

definition exRetryEnv :: tx_env where
  "exRetryEnv =
     \<lparr> attempts = (\<lambda>i. if i = 0 then SendFailed ''f86b05'' ''Error: nonce too low''
                      else Submitted ''f86b07'' ''0x7a2b''),
       reloads = (\<lambda>i. (1700000010, Loaded 10000000000000000000 7 0)) \<rparr>"


text \<open>
  The receipt of the spec's first scenario, and the manager and the claim once the claim
  is pending.
\<close>

definition exReceipt :: TransactionReceipt where
  "exReceipt = \<lparr>blockNumber = 100, effectiveGasPrice = 1000000000, gasUsed = 21000, status = True\<rparr>"

definition exPending :: EthWeb3Manager where
  "exPending = fst (processQueueTx exConfig exRetryEnv exClaim exManager)"

definition exPendingClaim :: ClaimTx where
  "exPendingClaim = snd (processQueueTx exConfig exRetryEnv exClaim exManager)"

text \<open>
  A vault that is asked for \<open>10 ^ 18\<close> wei below a balance of \<open>10 ^ 18\<close> and takes what
  exceeds \<open>2 * 10 ^ 18\<close>; a node that mines the vault transaction at once, and one whose
  receipt promise gives up (\<^verbatim>\<open>Transaction was not mined within ...\<close>) while the second
  poll finds the receipt; a poor and a rich wallet.
\<close>

definition exRefillContract :: RefillContract where
  "exRefillContract =
     \<lparr> contract = ''0xVa17'',
       triggerBalance = 1000000000000000000,
       overflowBalance = Some 2000000000000000000,
       cooldownTime = Some 3600,
       requestAmount = 1000000000000000000,
       allowanceFn = Some ''getAllowance'',
       checkContractBalance = True,
       contractDustBalance = None,
       allowanceFnArgs = None,
       withdrawFn = ''withdraw'',
       withdrawFnArgs = None,
       depositFn = None,
       depositFnArgs = None,
       withdrawGasLimit = Some 300000 \<rparr>"

definition exRefillConfig :: FaucetConfig where
  "exRefillConfig = exConfig\<lparr>ethRefillContract := Some exRefillContract\<rparr>"

definition exRefillEnv :: refill_env where
  "exRefillEnv =
     \<lparr> unclaimedBalance = 100000000000000000,
       allowance = Resolved 2000000000000000000,
       vaultBalance = Resolved 5000000000000000000,
       signedTx = Resolved ''02f872'',
       sentTx = Resolved ''0x5eed'',
       txReceipt = Resolved exReceipt,
       receiptPolls = [],
       sentAt = 1700000101,
       reloaded = (1700000130, Loaded 1600000000000000000 6 0) \<rparr>"

definition exUnminedEnv :: refill_env where
  "exUnminedEnv =
     exRefillEnv
       \<lparr>txReceipt := Rejected ''Error: Transaction was not mined within 750 seconds'',
        receiptPolls := [PollPending, PollReceipt exReceipt]\<rparr>"

text \<open>
  The same vault with a trigger balance of 1000 ether, \<open>10 ^ 21\<close> wei, and no overflow
  balance; and with a trigger balance of 100 ether.
\<close>

definition exBigTriggerConfig :: FaucetConfig where
  "exBigTriggerConfig =
     exConfig\<lparr>ethRefillContract :=
                Some (exRefillContract\<lparr>triggerBalance := 1000000000000000000000,
                                       overflowBalance := None\<rparr>)\<rparr>"

definition exSmallTriggerConfig :: FaucetConfig where
  "exSmallTriggerConfig =
     exConfig\<lparr>ethRefillContract :=
                Some (exRefillContract\<lparr>triggerBalance := 100000000000000000000,
                                       overflowBalance := None\<rparr>)\<rparr>"

definition exPoorManager :: EthWeb3Manager where
  "exPoorManager =
     exManager\<lparr>walletState := \<lparr>ready = True, nonce = 5,
                                 balance = 600000000000000000,
                                 nativeBalance = 600000000000000000\<rparr>\<rparr>"

definition exRichManager :: EthWeb3Manager where
  "exRichManager =
     exManager\<lparr>walletState := \<lparr>ready = True, nonce = 5,
                                 balance = 3100000000000000000,
                                 nativeBalance = 3100000000000000000\<rparr>\<rparr>"

text \<open>
  A run of the spec's first scenario with three sessions. The claim of \<open>s1\<close> is taken
  off the queue, and a claim of \<open>s2\<close> is added while it is processed; its first
  submission is rejected and its second one accepted. The claim of \<open>s2\<close> is taken off
  the queue; the receipt of \<open>s1\<close> arrives and \<open>s1\<close> is filed in the history while
  \<open>s2\<close> is processed. Then \<open>s2\<close> is pending, \<open>s3\<close> claims, the history entry of
  \<open>s1\<close> is evicted, and \<open>s1\<close> claims again.
\<close>

definition exTurns :: "op list" where
  "exTurns =
     [AddClaim 1700000000000 ''0xA1'' 1000000000000000000 ''s1'',
      TakeNext,
      AddClaim 1700000000500 ''0xB2'' 2000000000000000000 ''s2'',
      BuildSettles (Resolved ''f86b05''),
      SendSettles (Rejected ''Error: nonce too low''),
      SleepEnds,
      ReloadSettles 1700000010 (Loaded 10000000000000000000 7 0),
      BuildSettles (Resolved ''f86b07''),
      SendSettles (Resolved ''0x7a2b''),
      TakeNext,
      ReceiptSettles ''0x7a2b'' (Resolved exReceipt) [],
      BuildSettles (Resolved ''f86b08''),
      HistoryFiled,
      SendSettles (Resolved ''0x8c3d''),
      AddClaim 1700000020000 ''0xC3'' 1000000000000000000 ''s3'',
      TimerRuns,
      AddClaim 1700001900000 ''0xA1'' 1000000000000000000 ''s1'']"

section \<open>Properties\<close>

text \<open>
  C3. For every wallet state the status publisher derives OFFLINE when the wallet is not
  ready; otherwise NOFUNDS when the token balance is at most \<open>noFundsBalance\<close> or the
  native balance is at most \<open>ethTxGasLimit * ethTxMaxFee\<close>; otherwise LOWFUNDS when the
  token balance is at most \<open>lowFundsBalance\<close>; otherwise NORMAL.
\<close>

theorem C3_wallet_status:
  "newStatus cfg (Some ws) =
     (if \<not> ready ws then OFFLINE
      else if balance ws \<le> noFundsBalance cfg
              \<or> nativeBalance ws \<le> ethTxGasLimit cfg * ethTxMaxFee cfg then NOFUNDS
      else if balance ws \<le> lowFundsBalance cfg then LOWFUNDS
      else NORMAL)"
  by (simp add: newStatus_def)

text \<open>
  C10. When the stored balance is exactly zero, \<open>getFaucetBalance\<close> returns null, for
  the native and for the token variant, which is also its answer when there is no wallet
  state at all.
\<close>

theorem C10_zero_balance_is_null:
  "(nativeBalance ws = 0 \<longrightarrow>
      getFaucetBalance (Some ws) True = None
      \<and> getFaucetBalance (Some ws) True = getFaucetBalance None True)
   \<and> (balance ws = 0 \<longrightarrow>
      getFaucetBalance (Some ws) False = None
      \<and> getFaucetBalance (Some ws) False = getFaucetBalance None False)"
  by (simp add: getFaucetBalance_def or_null_def)

theorem C10_zero_balance_is_null_witness:
  "getFaucetBalance (Some \<lparr>ready = True, nonce = 5, balance = 0, nativeBalance = 0\<rparr>) True = None
   \<and> getFaucetBalance (Some \<lparr>ready = True, nonce = 5, balance = 0, nativeBalance = 0\<rparr>) False = None
   \<and> getFaucetBalance (Some \<lparr>ready = True, nonce = 5, balance = 7, nativeBalance = 0\<rparr>) False = Some 7"
  using C10_zero_balance_is_null
          [of "\<lparr>ready = True, nonce = 5, balance = 0, nativeBalance = 0\<rparr>"]
  by (simp add: getFaucetBalance_def or_null_def)

subsection \<open>Serialized claims\<close>

lemma is_digit_digit_char: "d < 10 \<Longrightarrow> is_digit (digit_char d)"
  by (simp add: is_digit_def digit_char_def)

lemma digit_val_digit_char: "d < 10 \<Longrightarrow> digit_val (digit_char d) = d"
  by (simp add: digit_val_def digit_char_def)

lemma parse_digits_snoc:
  "parse_digits acc (xs @ [c]) =
     (case parse_digits acc xs of
        None \<Rightarrow> None
      | Some v \<Rightarrow> (if is_digit c then Some (v * 10 + digit_val c) else None))"
  by (induction xs arbitrary: acc) auto

lemma parse_nat_toString: "parse_digits 0 (nat_toString n) = Some n"
proof (induction n rule: nat_toString.induct)
  case (1 n)
  show ?case
  proof (cases "n < 10")
    case True
    then show ?thesis
      by (subst nat_toString.simps) (simp add: is_digit_digit_char digit_val_digit_char)
  next
    case False
    with 1 have "parse_digits 0 (nat_toString (n div 10)) = Some (n div 10)" by simp
    with False show ?thesis
      by (subst nat_toString.simps)
         (simp add: parse_digits_snoc is_digit_digit_char digit_val_digit_char)
  qed
qed

lemma nat_toString_first: "\<exists>c cs. nat_toString n = c # cs \<and> is_digit c"
proof (induction n rule: nat_toString.induct)
  case (1 n)
  show ?case
  proof (cases "n < 10")
    case True
    then show ?thesis
      by (subst nat_toString.simps) (simp add: is_digit_digit_char)
  next
    case False
    with 1 obtain c cs where "nat_toString (n div 10) = c # cs" "is_digit c" by auto
    with False show ?thesis
      by (subst nat_toString.simps) simp
  qed
qed

lemma not_digit_sign: "\<not> is_digit CHR ''-''" "\<not> is_digit CHR ''+''"
  by (simp_all add: is_digit_def)

lemma BigInt_toString: "BigInt (bigint_toString i) = Some i"
proof (cases "i < 0")
  case True
  obtain c cs where "nat_toString (nat (- i)) = c # cs"
    using nat_toString_first by blast
  with True show ?thesis
    using parse_nat_toString [of "nat (- i)"]
    by (simp add: BigInt_def bigint_toString_def)
next
  case False
  obtain c cs where e: "nat_toString (nat i) = c # cs" and d: "is_digit c"
    using nat_toString_first by blast
  from d have "c \<noteq> CHR ''-''" "c \<noteq> CHR ''+''"
    using not_digit_sign by auto
  with False e show ?thesis
    using parse_nat_toString [of "nat i"]
    by (simp add: BigInt_def bigint_toString_def)
qed

lemma restore_serialize:
  "restoreClaimTx now (serialize c) =
     Some (new_ClaimTx now (ClaimTx.target c) (ClaimTx.amount c) (ClaimTx.session c)
             (Some (ClaimTx.time c)))"
  by (simp add: restoreClaimTx_def serialize_def BigInt_toString)

text \<open>
  What the constructor stores as the time is never the number 0 unless the clock reads 0,
  the first millisecond of 1970.
\<close>

lemma new_ClaimTx_time:
  "clock \<noteq> 0 \<Longrightarrow> ClaimTx.time (new_ClaimTx clock tgt amt sessId date) \<noteq> 0"
  by (simp add: new_ClaimTx_def split: option.splits)

text \<open>
  C9. A claim has the time that its constructor stored (the field is \<^verbatim>\<open>readonly\<close>),
  while the clock did not read 0. Serializing the claim and rebuilding it as line 137
  does, at any later reading \<open>now\<close> of the clock, succeeds and yields a claim with the
  same time, target, amount and session.
\<close>

theorem C9_roundtrip:
  assumes "clock \<noteq> 0"
    and "ClaimTx.time c = ClaimTx.time (new_ClaimTx clock tgt amt sessId date)"
  shows "map_option
           (\<lambda>c'. (ClaimTx.time c', ClaimTx.target c', ClaimTx.amount c', ClaimTx.session c'))
           (restoreClaimTx now (serialize c))
         = Some (ClaimTx.time c, ClaimTx.target c, ClaimTx.amount c, ClaimTx.session c)"
proof -
  from assms have "ClaimTx.time c \<noteq> 0"
    using new_ClaimTx_time [of clock tgt amt sessId date] by simp
  then show ?thesis
    by (simp add: restore_serialize new_ClaimTx_def)
qed

text \<open>
  A claim of 1205 units that \<^verbatim>\<open>addClaimTransaction\<close> has made, restored a second
  later.
\<close>

theorem C9_roundtrip_witness:
  "map_option
     (\<lambda>c'. (ClaimTx.time c', ClaimTx.target c', ClaimTx.amount c', ClaimTx.session c'))
     (restoreClaimTx 1700000000000
        (serialize (snd (addClaimTransaction 1699999999000 ''0xA'' 1205 ''s1'' exManager))))
   = Some (1699999999000, ''0xA'', 1205, ''s1'')"
  using C9_roundtrip
          [of 1699999999000
              "snd (addClaimTransaction 1699999999000 ''0xA'' 1205 ''s1'' exManager)"
              "''0xA''" 1205 "''s1''" None 1700000000000]
  by (simp add: addClaimTransaction_def new_ClaimTx_def Let_def)

subsection \<open>Numbers of the configuration\<close>

lemma nat_toString_digits: "c \<in> set (nat_toString n) \<Longrightarrow> is_digit c"
proof (induction n arbitrary: c rule: nat_toString.induct)
  case (1 n)
  have e: "nat_toString n =
      (if n < 10 then [digit_char n] else nat_toString (n div 10) @ [digit_char (n mod 10)])"
    by (rule nat_toString.simps)
  show ?case
  proof (cases "n < 10")
    case True
    with "1.prems" e show ?thesis
      by (simp add: is_digit_digit_char)
  next
    case False
    with "1.prems" e have "c \<in> set (nat_toString (n div 10)) \<or> c = digit_char (n mod 10)"
      by auto
    with False "1.IH" show ?thesis
      by (auto simp: is_digit_digit_char)
  qed
qed

lemma parse_digits_nondigit:
  "c \<in> set cs \<Longrightarrow> \<not> is_digit c \<Longrightarrow> parse_digits acc cs = None"
  by (induction cs arbitrary: acc) auto

lemma BigInt_exponent:
  assumes "\<forall>c\<in>set pre. is_digit c \<or> c = CHR ''.''"
  shows "BigInt (pre @ CHR ''e'' # post) = None"
    and "BigInt (CHR ''-'' # pre @ CHR ''e'' # post) = None"
proof -
  have e: "\<not> is_digit CHR ''e''"
    by (simp add: is_digit_def)
  have p: "parse_digits 0 (pre @ CHR ''e'' # post) = None"
    by (rule parse_digits_nondigit [of "CHR ''e''"]) (simp_all add: e)
  show "BigInt (CHR ''-'' # pre @ CHR ''e'' # post) = None"
    by (simp add: BigInt_def p)
  show "BigInt (pre @ CHR ''e'' # post) = None"
  proof (cases pre)
    case Nil
    then show ?thesis
      by (simp add: BigInt_def e)
  next
    case (Cons d ds)
    with assms have "is_digit d \<or> d = CHR ''.''" by simp
    then have "d \<noteq> CHR ''-''" "d \<noteq> CHR ''+''"
      using not_digit_sign by auto
    with p Cons show ?thesis
      by (simp add: BigInt_def)
  qed
qed

lemma number_toString_large:
  assumes "\<not> \<bar>x\<bar> < 1000000000000000000000"
  shows "\<exists>pre post. number_toString x = (if x < 0 then ''-'' else []) @ pre @ CHR ''e'' # post
           \<and> (\<forall>c\<in>set pre. is_digit c \<or> c = CHR ''.'')"
proof -
  define digits where "digits = nat_toString (nat \<bar>x\<bar>)"
  define mantissa where "mantissa = rev (dropWhile (\<lambda>c. c = CHR ''0'') (rev digits))"
  define pre where
    "pre = (case mantissa of [] \<Rightarrow> [] | d # ds \<Rightarrow> d # (if ds = [] then [] else CHR ''.'' # ds))"
  define post where "post = CHR ''+'' # nat_toString (length digits - 1)"
  have "set mantissa \<subseteq> set digits"
    unfolding mantissa_def using set_dropWhileD [of _ _ "rev digits"] by auto
  then have m: "\<forall>c\<in>set mantissa. is_digit c"
    unfolding digits_def using nat_toString_digits by blast
  have d: "\<forall>c\<in>set pre. is_digit c \<or> c = CHR ''.''"
  proof (cases mantissa)
    case Nil
    then show ?thesis by (simp add: pre_def)
  next
    case (Cons a as)
    with m show ?thesis by (auto simp: pre_def)
  qed
  have n: "number_toString x = (if x < 0 then ''-'' else []) @ pre @ CHR ''e'' # post"
    using assms
    by (simp add: number_toString_def Let_def pre_def post_def mantissa_def digits_def)
  show ?thesis
  proof (intro exI conjI)
    show "number_toString x = (if x < 0 then ''-'' else []) @ pre @ CHR ''e'' # post"
      by (rule n)
    show "\<forall>c\<in>set pre. is_digit c \<or> c = CHR ''.''"
      by (rule d)
  qed
qed

lemma configBigInt_small: "\<bar>x\<bar> < 1000000000000000000000 \<Longrightarrow> configBigInt x = Inr x"
  by (simp add: configBigInt_def number_toString_def BigInt_toString)

lemma configBigInt_large:
  assumes "\<not> \<bar>x\<bar> < 1000000000000000000000"
  shows "configBigInt x =
     Inl (''SyntaxError: Cannot convert '' @ number_toString x @ '' to a BigInt'')"
proof -
  from number_toString_large [OF assms] obtain pre post where
    n: "number_toString x = (if x < 0 then ''-'' else []) @ pre @ CHR ''e'' # post"
    and d: "\<forall>c\<in>set pre. is_digit c \<or> c = CHR ''.''"
    by blast
  from BigInt_exponent [OF d] n have "BigInt (number_toString x) = None"
    by (cases "x < 0") simp_all
  then show ?thesis
    by (simp add: configBigInt_def)
qed

lemma number_toString_1e21: "number_toString 1000000000000000000000 = ''1e+21''"
  by (simp add: number_toString_def nat_toString.simps digit_char_def Let_def char_of_def bit_0)


subsection \<open>Frames of the operations\<close>


lemma emit_fields [simp]:
  "walletAddr (emit e s) = walletAddr s"
  "walletState (emit e s) = walletState s"
  "tokenState (emit e s) = tokenState s"
  "claimTxQueue (emit e s) = claimTxQueue s"
  "pendingTxQueue (emit e s) = pendingTxQueue s"
  "historyTxDict (emit e s) = historyTxDict s"
  "queuedClaimTxs (emit e s) = queuedClaimTxs s"
  "timeouts (emit e s) = timeouts s"
  "walletRefilling (emit e s) = walletRefilling s"
  "lastWalletRefill (emit e s) = lastWalletRefill s"
  "lastWalletRefillTry (emit e s) = lastWalletRefillTry s"
  "effects (emit e s) = effects s @ [e]"
  by (simp_all add: emit_def)

lemma loadWalletState_fields [simp]:
  "walletAddr (loadWalletState cfg now r s) = walletAddr s"
  "tokenState (loadWalletState cfg now r s) = tokenState s"
  "claimTxQueue (loadWalletState cfg now r s) = claimTxQueue s"
  "pendingTxQueue (loadWalletState cfg now r s) = pendingTxQueue s"
  "historyTxDict (loadWalletState cfg now r s) = historyTxDict s"
  "queuedClaimTxs (loadWalletState cfg now r s) = queuedClaimTxs s"
  "timeouts (loadWalletState cfg now r s) = timeouts s"
  "walletRefilling (loadWalletState cfg now r s) = walletRefilling s"
  "lastWalletRefill (loadWalletState cfg now r s) = lastWalletRefill s"
  "lastWalletRefillTry (loadWalletState cfg now r s) = lastWalletRefillTry s"
  by (simp_all add: loadWalletState_def updateFaucetStatus_def split: load.splits)


lemma sendAttempt_fields:
  assumes "sendAttempt cfg att c s = (s', c', r)"
  shows "walletState s' = walletState s" "tokenState s' = tokenState s"
    "claimTxQueue s' = claimTxQueue s" "pendingTxQueue s' = pendingTxQueue s"
    "historyTxDict s' = historyTxDict s" "queuedClaimTxs s' = queuedClaimTxs s"
    "timeouts s' = timeouts s" "walletRefilling s' = walletRefilling s"
    "session c' = session c" "amount c' = amount c" "ClaimTx.status c' = ClaimTx.status c"
    "ClaimTx.nonce c' = Some (WalletState.nonce (walletState s))"
  using assms
  by (auto simp: sendAttempt_def buildTx_def Let_def split: attempt.splits prod.splits)

lemma sendAttempt_hash:
  "sendAttempt cfg att c s = (s', c', Inr hash) \<Longrightarrow> txhash c' = Some hash"
  by (auto simp: sendAttempt_def buildTx_def Let_def split: attempt.splits prod.splits)

lemma submitLoop_ok:
  "sendAttempt cfg (attempts env retry) c s = (s2, c2, Inr h) \<Longrightarrow>
   submitLoop cfg env retry txError c s = (s2, c2, Inr h)"
  by (subst submitLoop.simps) simp

lemma submitLoop_retry:
  "sendAttempt cfg (attempts env retry) c s = (s2, c2, Inl ex) \<Longrightarrow>
   submitLoop cfg env retry txError c s =
     (if retry < 3
      then submitLoop cfg env (retry + 1)
             (Some (case txError of None \<Rightarrow> ex | Some first \<Rightarrow> first)) c2
             (loadWalletState cfg (fst (reloads env retry)) (snd (reloads env retry))
                (emit (Sleep 2000) s2))
      else (loadWalletState cfg (fst (reloads env retry)) (snd (reloads env retry))
              (emit (Sleep 2000) s2),
            c2, Inl (case txError of None \<Rightarrow> ex | Some first \<Rightarrow> first)))"
  by (subst submitLoop.simps) (simp add: Let_def)

lemma submitLoop_frame:
  "submitLoop cfg env retry txError c s = (s', c', r) \<Longrightarrow>
   tokenState s' = tokenState s \<and> claimTxQueue s' = claimTxQueue s
   \<and> pendingTxQueue s' = pendingTxQueue s \<and> historyTxDict s' = historyTxDict s
   \<and> queuedClaimTxs s' = queuedClaimTxs s \<and> timeouts s' = timeouts s
   \<and> walletRefilling s' = walletRefilling s
   \<and> session c' = session c \<and> amount c' = amount c \<and> ClaimTx.status c' = ClaimTx.status c"
proof (induction "3 - retry" arbitrary: retry txError c s)
  case 0
  obtain s2 c2 r2 where a: "sendAttempt cfg (attempts env retry) c s = (s2, c2, r2)"
    by (cases "sendAttempt cfg (attempts env retry) c s") auto
  show ?case
  proof (cases r2)
    case (Inl ex)
    with a 0 show ?thesis
      using sendAttempt_fields [OF a] by (auto simp: submitLoop_retry)
  next
    case (Inr h)
    with a 0 show ?thesis
      using sendAttempt_fields [OF a] by (auto simp: submitLoop_ok)
  qed
next
  case (Suc k)
  obtain s2 c2 r2 where a: "sendAttempt cfg (attempts env retry) c s = (s2, c2, r2)"
    by (cases "sendAttempt cfg (attempts env retry) c s") auto
  show ?case
  proof (cases r2)
    case (Inl ex)
    from Suc.hyps(2) have lt: "retry < 3" and k: "k = 3 - (retry + 1)" by auto
    from a Inl lt Suc.prems
    have "submitLoop cfg env (retry + 1)
            (Some (case txError of None \<Rightarrow> ex | Some first \<Rightarrow> first)) c2
            (loadWalletState cfg (fst (reloads env retry)) (snd (reloads env retry))
               (emit (Sleep 2000) s2)) = (s', c', r)"
      by (simp add: submitLoop_retry)
    from Suc.hyps(1) [OF k this] show ?thesis
      using sendAttempt_fields [OF a] by simp
  next
    case (Inr h)
    with a Suc.prems show ?thesis
      using sendAttempt_fields [OF a] by (auto simp: submitLoop_ok)
  qed
qed

lemma submitLoop_submitted:
  "submitLoop cfg env retry txError c s = (s', c', Inr hash) \<Longrightarrow>
   txhash c' = Some hash \<and> ClaimTx.nonce c' = Some (WalletState.nonce (walletState s'))"
proof (induction "3 - retry" arbitrary: retry txError c s)
  case 0
  obtain s2 c2 r2 where a: "sendAttempt cfg (attempts env retry) c s = (s2, c2, r2)"
    by (cases "sendAttempt cfg (attempts env retry) c s") auto
  show ?case
  proof (cases r2)
    case (Inl ex)
    with a 0 show ?thesis by (auto simp: submitLoop_retry)
  next
    case (Inr h)
    with a 0 show ?thesis
      using sendAttempt_fields [OF a] sendAttempt_hash [of cfg "attempts env retry" c s s2 c2 h]
      by (auto simp: submitLoop_ok)
  qed
next
  case (Suc k)
  obtain s2 c2 r2 where a: "sendAttempt cfg (attempts env retry) c s = (s2, c2, r2)"
    by (cases "sendAttempt cfg (attempts env retry) c s") auto
  show ?case
  proof (cases r2)
    case (Inl ex)
    from Suc.hyps(2) have lt: "retry < 3" and k: "k = 3 - (retry + 1)" by auto
    from a Inl lt Suc.prems
    have "submitLoop cfg env (retry + 1)
            (Some (case txError of None \<Rightarrow> ex | Some first \<Rightarrow> first)) c2
            (loadWalletState cfg (fst (reloads env retry)) (snd (reloads env retry))
               (emit (Sleep 2000) s2)) = (s', c', Inr hash)"
      by (simp add: submitLoop_retry)
    from Suc.hyps(1) [OF k this] show ?thesis .
  next
    case (Inr h)
    with a Suc.prems show ?thesis
      using sendAttempt_fields [OF a] sendAttempt_hash [of cfg "attempts env retry" c s s2 c2 h]
      by (auto simp: submitLoop_ok)
  qed
qed

lemma sendAttempt_failed:
  "\<not> submitted att \<Longrightarrow> sendAttempt cfg att c s = (s2, c2, r) \<Longrightarrow> r = Inl (thrown att)"
  by (cases att) (auto simp: sendAttempt_def Let_def split: prod.splits)

lemma sendAttempt_submitted:
  "sendAttempt cfg (Submitted hex hash) c s = (s2, c2, r) \<Longrightarrow> r = Inr hash"
  by (auto simp: sendAttempt_def Let_def split: prod.splits)

lemma passEvents_append [simp]: "passEvents (xs @ ys) = passEvents xs @ passEvents ys"
  by (induction xs rule: passEvents.induct) auto



lemma loadWalletState_wallet_cong:
  "tokenState s = tokenState s' \<Longrightarrow>
   walletState (loadWalletState cfg now r s) = walletState (loadWalletState cfg now r s')"
  by (cases r) (simp_all add: loadWalletState_def updateFaucetStatus_def)


lemma submitLoop_success_at:
  "retry \<le> k \<Longrightarrow> k \<le> 3 \<Longrightarrow> attempts env k = Submitted hex hash \<Longrightarrow>
   \<forall>j. retry \<le> j \<and> j < k \<longrightarrow> \<not> submitted (attempts env j) \<Longrightarrow>
   submitLoop cfg env retry txError c s = (s', c', r) \<Longrightarrow>
   r = Inr hash
   \<and> walletState s' =
       (if k = retry then walletState s
        else walletState (loadWalletState cfg (fst (reloads env (k - 1)))
                            (snd (reloads env (k - 1))) s))"
proof (induction "k - retry" arbitrary: retry txError c s)
  case 0
  then have kr: "k = retry" by simp
  obtain s2 c2 r2 where a: "sendAttempt cfg (attempts env retry) c s = (s2, c2, r2)"
    by (cases "sendAttempt cfg (attempts env retry) c s") auto
  from a kr "0.prems"(3) have r2: "r2 = Inr hash"
    using sendAttempt_submitted [of cfg hex hash c s s2 c2 r2] by simp
  from a r2 kr "0.prems"(5) show ?case
    using sendAttempt_fields(1) [OF a] by (simp add: submitLoop_ok)
next
  case (Suc d)
  from Suc.hyps(2) Suc.prems(2) have lt: "retry < 3" and lk: "retry < k"
    and d: "d = k - (retry + 1)" by auto
  obtain s2 c2 r2 where a: "sendAttempt cfg (attempts env retry) c s = (s2, c2, r2)"
    by (cases "sendAttempt cfg (attempts env retry) c s") auto
  from Suc.prems(4) lk have nf: "\<not> submitted (attempts env retry)" by simp
  from sendAttempt_failed [OF nf a] have r2: "r2 = Inl (thrown (attempts env retry))" .
  let ?e = "case txError of None \<Rightarrow> thrown (attempts env retry) | Some first \<Rightarrow> first"
  let ?s4 = "loadWalletState cfg (fst (reloads env retry)) (snd (reloads env retry))
               (emit (Sleep 2000) s2)"
  from a r2 lt Suc.prems(5)
  have next_run: "submitLoop cfg env (retry + 1) (Some ?e) c2 ?s4 = (s', c', r)"
    by (simp add: submitLoop_retry)
  have le: "retry + 1 \<le> k" using lk by simp
  have all: "\<forall>j. retry + 1 \<le> j \<and> j < k \<longrightarrow> \<not> submitted (attempts env j)"
    using Suc.prems(4) by auto
  have tok: "tokenState ?s4 = tokenState s"
    using sendAttempt_fields(2) [OF a] by simp
  from Suc.hyps(1) [OF d le Suc.prems(2) Suc.prems(3) all next_run]
  have ih: "r = Inr hash
     \<and> walletState s' =
         (if k = retry + 1 then walletState ?s4
          else walletState (loadWalletState cfg (fst (reloads env (k - 1)))
                              (snd (reloads env (k - 1))) ?s4))" .
  have w4: "walletState ?s4 =
      walletState (loadWalletState cfg (fst (reloads env retry)) (snd (reloads env retry)) s)"
    by (rule loadWalletState_wallet_cong) (simp add: sendAttempt_fields(2) [OF a])
  have wk: "walletState (loadWalletState cfg (fst (reloads env (k - 1)))
                           (snd (reloads env (k - 1))) ?s4) =
      walletState (loadWalletState cfg (fst (reloads env (k - 1)))
                     (snd (reloads env (k - 1))) s)"
    by (rule loadWalletState_wallet_cong) (rule tok)
  from ih w4 wk lk show ?case by auto
qed

lemma removeQueuedClaimTx_gone:
  "sessId \<notin> set (map IQueuedClaimTx.session (removeQueuedClaimTx sessId db))"
  by (auto simp: removeQueuedClaimTx_def)

lemma processQueueTx_guard:
  assumes "\<not> ready (walletState s)
           \<or> balance (walletState s) - spareFundsAmount cfg < amount claimTx
           \<or> nativeBalance (walletState s) \<le> ethTxGasLimit cfg * ethTxMaxFee cfg"
  shows "processQueueTx cfg env claimTx s =
     (emit (Emit (session claimTx) ''failed'') s
        \<lparr>queuedClaimTxs := removeQueuedClaimTx (session claimTx) (queuedClaimTxs s)\<rparr>,
      claimTx\<lparr>failReason :=
                Some (if \<not> ready (walletState s)
                      then ''Network RPC is currently unreachable.''
                      else ''Faucet wallet is out of funds.''),
              status := FAILED\<rparr>)"
  using assms by (simp add: processQueueTx_def Let_def)

text \<open>
  C8. A claim that is processed while the wallet is not ready, or while the token balance
  less the spare funds is below its amount, or while the native balance does not exceed
  \<open>ethTxGasLimit * ethTxMaxFee\<close>, is marked FAILED and its session is removed from the
  durable queue. The only event is the emission of \<open>failed\<close>: the claim is never announced
  as processing and no transaction is built or sent. The wallet state, the pending claims
  and the claim's nonce, hex string and hash are unchanged.
\<close>

theorem C8_guard_failure:
  assumes "\<not> ready (walletState s)
           \<or> balance (walletState s) - spareFundsAmount cfg < amount claimTx
           \<or> nativeBalance (walletState s) \<le> ethTxGasLimit cfg * ethTxMaxFee cfg"
    and "processQueueTx cfg env claimTx s = (s', c')"
  shows "ClaimTx.status c' = FAILED
     \<and> session claimTx \<notin> set (map IQueuedClaimTx.session (queuedClaimTxs s'))
     \<and> effects s' = effects s @ [Emit (session claimTx) ''failed'']
     \<and> walletState s' = walletState s
     \<and> pendingTxQueue s' = pendingTxQueue s
     \<and> ClaimTx.nonce c' = ClaimTx.nonce claimTx
     \<and> txhex c' = txhex claimTx
     \<and> txhash c' = txhash claimTx"
proof -
  from assms(2) have "s' = emit (Emit (session claimTx) ''failed'') s
        \<lparr>queuedClaimTxs := removeQueuedClaimTx (session claimTx) (queuedClaimTxs s)\<rparr>"
    and "c' = claimTx\<lparr>failReason :=
                Some (if \<not> ready (walletState s)
                      then ''Network RPC is currently unreachable.''
                      else ''Faucet wallet is out of funds.''),
              status := FAILED\<rparr>"
    by (simp_all add: processQueueTx_guard [OF assms(1)])
  then show ?thesis
    using removeQueuedClaimTx_gone [of "session claimTx" "queuedClaimTxs s"] by simp
qed

theorem C8_guard_failure_witness:
  "ClaimTx.status
     (snd (processQueueTx exConfig exRetryEnv exClaim
             (exManager\<lparr>walletState := \<lparr>ready = True, nonce = 5, balance = 100,
                                         nativeBalance = 10000000000000000000\<rparr>,
                        queuedClaimTxs := [serialize exClaim]\<rparr>))) = FAILED
   \<and> queuedClaimTxs
       (fst (processQueueTx exConfig exRetryEnv exClaim
               (exManager\<lparr>walletState := \<lparr>ready = True, nonce = 5, balance = 100,
                                           nativeBalance = 10000000000000000000\<rparr>,
                          queuedClaimTxs := [serialize exClaim]\<rparr>))) = []
   \<and> effects
       (fst (processQueueTx exConfig exRetryEnv exClaim
               (exManager\<lparr>walletState := \<lparr>ready = True, nonce = 5, balance = 100,
                                           nativeBalance = 10000000000000000000\<rparr>,
                          queuedClaimTxs := [serialize exClaim]\<rparr>))) = [Emit ''s1'' ''failed'']"
  using C8_guard_failure
    [of "exManager\<lparr>walletState := \<lparr>ready = True, nonce = 5, balance = 100,
                                    nativeBalance = 10000000000000000000\<rparr>,
                   queuedClaimTxs := [serialize exClaim]\<rparr>"
        exConfig exClaim exRetryEnv
        "fst (processQueueTx exConfig exRetryEnv exClaim
               (exManager\<lparr>walletState := \<lparr>ready = True, nonce = 5, balance = 100,
                                           nativeBalance = 10000000000000000000\<rparr>,
                          queuedClaimTxs := [serialize exClaim]\<rparr>))"
        "snd (processQueueTx exConfig exRetryEnv exClaim
               (exManager\<lparr>walletState := \<lparr>ready = True, nonce = 5, balance = 100,
                                           nativeBalance = 10000000000000000000\<rparr>,
                          queuedClaimTxs := [serialize exClaim]\<rparr>))"]
  by (simp add: exConfig_def exManager_def exClaim_def initialManager_def
                addClaimTransaction_def new_ClaimTx_def serialize_def Let_def
                processQueueTx_def removeQueuedClaimTx_def emit_def)

lemma startWeb3_token:
  "(tokenState (startWeb3 cfg s) = None) = (faucetCoinType cfg = NATIVE)"
  by (simp add: startWeb3_def)

text \<open>
  C1. When the pass \<open>k\<close> of the loop is the first that submits the transaction, with
  hash \<open>hash\<close>, and \<open>before\<close> is the wallet state at that moment (the one
  \<open>processQueueTx\<close> started with, or the one loaded after the failed pass before), then
  the nonce of the wallet state is that of \<open>before\<close> plus 1, the token balance is less
  by the claim's amount, the native balance is less by the amount exactly when the coin is
  native, the claim is the pending entry under its hash, its session is gone from the
  durable queue and its status is PENDING.
\<close>

theorem C1_successful_submission:
  assumes "ready (walletState s)"
    and "\<not> balance (walletState s) - spareFundsAmount cfg < amount claimTx"
    and "\<not> nativeBalance (walletState s) \<le> ethTxGasLimit cfg * ethTxMaxFee cfg"
    and "k \<le> 3"
    and "attempts env k = Submitted hex hash"
    and "\<forall>j<k. \<not> submitted (attempts env j)"
    and "(tokenState s = None) = (faucetCoinType cfg = NATIVE)"
    and "before = (if k = 0 then walletState s
                   else walletState (loadWalletState cfg (fst (reloads env (k - 1)))
                                       (snd (reloads env (k - 1))) s))"
    and "processQueueTx cfg env claimTx s = (s', c')"
  shows "WalletState.nonce (walletState s') = WalletState.nonce before + 1
     \<and> balance (walletState s') = balance before - amount claimTx
     \<and> nativeBalance (walletState s') =
         (if faucetCoinType cfg = NATIVE then nativeBalance before - amount claimTx
          else nativeBalance before)
     \<and> map_of (pendingTxQueue s') hash = Some c'
     \<and> txhash c' = Some hash
     \<and> ClaimTx.nonce c' = Some (WalletState.nonce before)
     \<and> session claimTx \<notin> set (map IQueuedClaimTx.session (queuedClaimTxs s'))
     \<and> ClaimTx.status c' = PENDING"
proof -
  let ?c0 = "claimTx\<lparr>status := PROCESSING\<rparr>"
  let ?s0 = "emit (Emit (session claimTx) ''processing'') s"
  obtain s1 c1 r where run: "submitLoop cfg env 0 None ?c0 ?s0 = (s1, c1, r)"
    by (cases "submitLoop cfg env 0 None ?c0 ?s0") auto
  have all: "\<forall>j. 0 \<le> j \<and> j < k \<longrightarrow> \<not> submitted (attempts env j)"
    using assms(6) by simp
  from submitLoop_success_at [OF _ assms(4) assms(5) all run]
  have r: "r = Inr hash"
    and w1: "walletState s1 =
        (if k = 0 then walletState ?s0
         else walletState (loadWalletState cfg (fst (reloads env (k - 1)))
                             (snd (reloads env (k - 1))) ?s0))"
    by simp_all
  have "walletState (loadWalletState cfg (fst (reloads env (k - 1)))
                       (snd (reloads env (k - 1))) ?s0) =
        walletState (loadWalletState cfg (fst (reloads env (k - 1)))
                       (snd (reloads env (k - 1))) s)"
    by (rule loadWalletState_wallet_cong) simp
  with w1 assms(8) have before: "walletState s1 = before" by simp
  from submitLoop_frame [OF run]
  have tok: "tokenState s1 = tokenState s" and sess: "session c1 = session claimTx"
    and amt: "amount c1 = amount claimTx" by simp_all
  from submitLoop_submitted [OF run [unfolded r]]
  have h: "txhash c1 = Some hash" and n: "ClaimTx.nonce c1 = Some (WalletState.nonce before)"
    using before by simp_all
  from assms(9) run r
  have res: "s' = emit (Emit (session c1) ''pending'')
        ((updateFaucetStatus cfg
            (s1\<lparr>walletState :=
                  (if tokenState s1 = None
                   then (walletState s1)
                          \<lparr>WalletState.nonce := WalletState.nonce (walletState s1) + 1,
                           balance := balance (walletState s1) - amount c1,
                           nativeBalance := nativeBalance (walletState s1) - amount c1\<rparr>
                   else (walletState s1)
                          \<lparr>WalletState.nonce := WalletState.nonce (walletState s1) + 1,
                           balance := balance (walletState s1) - amount c1\<rparr>)\<rparr>))
           \<lparr>pendingTxQueue := AList.update hash (c1\<lparr>status := PENDING\<rparr>) (pendingTxQueue s1),
            queuedClaimTxs := removeQueuedClaimTx (session c1) (queuedClaimTxs s1)\<rparr>)"
    and c': "c' = c1\<lparr>status := PENDING\<rparr>"
    using assms(1-3) by (auto simp: processQueueTx_def Let_def updateFaucetStatus_def emit_def)
  show ?thesis
    using removeQueuedClaimTx_gone [of "session c1" "queuedClaimTxs s1"]
    by (simp add: res c' updateFaucetStatus_def before tok sess amt h n assms(7)
                  update_conv')
qed

theorem C1_successful_submission_witness:
  "WalletState.nonce (walletState (fst (processQueueTx exConfig exRetryEnv exClaim exManager))) = 8
   \<and> balance (walletState (fst (processQueueTx exConfig exRetryEnv exClaim exManager)))
       = 9000000000000000000
   \<and> nativeBalance (walletState (fst (processQueueTx exConfig exRetryEnv exClaim exManager)))
       = 9000000000000000000
   \<and> map_of (pendingTxQueue (fst (processQueueTx exConfig exRetryEnv exClaim exManager))) ''0x7a2b''
       = Some (snd (processQueueTx exConfig exRetryEnv exClaim exManager))
   \<and> ClaimTx.nonce (snd (processQueueTx exConfig exRetryEnv exClaim exManager)) = Some 7
   \<and> ClaimTx.status (snd (processQueueTx exConfig exRetryEnv exClaim exManager)) = PENDING"
  using C1_successful_submission
    [of exManager exConfig exClaim 1 exRetryEnv "''f86b07''" "''0x7a2b''"
        "walletState (loadWalletState exConfig (fst (reloads exRetryEnv 0))
                        (snd (reloads exRetryEnv 0)) exManager)"
        "fst (processQueueTx exConfig exRetryEnv exClaim exManager)"
        "snd (processQueueTx exConfig exRetryEnv exClaim exManager)"]
  by (simp add: exConfig_def exManager_def exClaim_def exRetryEnv_def initialManager_def
                addClaimTransaction_def new_ClaimTx_def Let_def loadWalletState_def
                updateFaucetStatus_def emit_def)



subsection \<open>The receipt watcher\<close>


lemma awaitTransactionReceipt_frame:
  "awaitTransactionReceipt polls s = Some (outcome, s') \<Longrightarrow>
   walletState s' = walletState s \<and> tokenState s' = tokenState s
   \<and> claimTxQueue s' = claimTxQueue s \<and> pendingTxQueue s' = pendingTxQueue s
   \<and> historyTxDict s' = historyTxDict s \<and> timeouts s' = timeouts s
   \<and> walletRefilling s' = walletRefilling s \<and> lastWalletRefill s' = lastWalletRefill s
   \<and> lastWalletRefillTry s' = lastWalletRefillTry s"
  by (induction polls s rule: awaitTransactionReceipt.induct) (auto split: if_splits)

lemma orPollReceipt_frame:
  "orPollReceipt txPromise polls s = Some (outcome, s') \<Longrightarrow>
   walletState s' = walletState s \<and> tokenState s' = tokenState s
   \<and> claimTxQueue s' = claimTxQueue s \<and> pendingTxQueue s' = pendingTxQueue s
   \<and> historyTxDict s' = historyTxDict s \<and> timeouts s' = timeouts s
   \<and> walletRefilling s' = walletRefilling s \<and> lastWalletRefill s' = lastWalletRefill s
   \<and> lastWalletRefillTry s' = lastWalletRefillTry s"
  by (cases txPromise)
     (auto simp: orPollReceipt_def split: if_splits dest: awaitTransactionReceipt_frame)

text \<open>
  C5. For a submitted claim (hash \<open>hash\<close>, nonce \<open>n\<close>) whose receipt promise, with the
  polling that replaces a promise that gave up, settles with \<open>outcome\<close>, the watcher
  returns; the claim is no longer pending under its hash; it is the history entry under
  its nonce; the timer that deletes that entry is set to \<open>30 * 60 * 1000\<close> ms, and the
  entry is gone when it has run. With a receipt the claim is CONFIRMED with the receipt's
  block and the fee \<open>effectiveGasPrice * gasUsed\<close>; the native balance is less by the
  fee, and the token balance is less by the fee exactly when the coin is native. With an
  exception the claim is FAILED and the wallet state is unchanged.
\<close>

theorem C5_receipt_watcher:
  assumes "txhash claimTx = Some hash"
    and "ClaimTx.nonce claimTx = Some n"
    and "(tokenState s = None) = (faucetCoinType cfg = NATIVE)"
    and "orPollReceipt txPromise polls s = Some (outcome, s1)"
  shows "\<exists>s' c'. receiptWatcher txPromise polls claimTx s = Some (s', c')
     \<and> map_of (pendingTxQueue s') hash = None
     \<and> map_of (historyTxDict s') n = Some c'
     \<and> (30 * 60 * 1000, EvictHistory n) \<in> set (timeouts s')
     \<and> map_of (historyTxDict (runTimer (EvictHistory n) s')) n = None
     \<and> (case outcome of
           Resolved receipt \<Rightarrow>
             ClaimTx.status c' = CONFIRMED
             \<and> txblock c' = Some (blockNumber receipt)
             \<and> txfee c' = effectiveGasPrice receipt * gasUsed receipt
             \<and> nativeBalance (walletState s') = nativeBalance (walletState s) - txfee c'
             \<and> balance (walletState s') =
                 (if faucetCoinType cfg = NATIVE then balance (walletState s) - txfee c'
                  else balance (walletState s))
         | Rejected error \<Rightarrow>
             ClaimTx.status c' = FAILED
             \<and> failReason c' = Some (''Transaction Error: '' @ error)
             \<and> walletState s' = walletState s)"
proof (cases outcome)
  case (Resolved receipt)
  from orPollReceipt_frame [OF assms(4)]
  have w: "walletState s1 = walletState s" and t: "tokenState s1 = tokenState s" by simp_all
  show ?thesis
    using assms Resolved w t
    by (simp add: receiptWatcher_def onReceipt_def Let_def update_conv' delete_conv')
next
  case (Rejected error)
  from orPollReceipt_frame [OF assms(4)]
  have w: "walletState s1 = walletState s" by simp
  show ?thesis
    using assms Rejected w
    by (simp add: receiptWatcher_def onReceiptError_def Let_def update_conv' delete_conv')
qed

subsection \<open>One claim per session\<close>


lemma update_entry:
  "(k', x) \<in> set (AList.update k v al) \<Longrightarrow> x = v \<or> (k', x) \<in> set al"
  by (induction al) (auto split: if_splits)

lemma update_image:
  "(\<lambda>e. f (snd e)) ` set (AList.update k v al) \<subseteq> insert (f v) ((\<lambda>e. f (snd e)) ` set al)"
proof
  fix y assume "y \<in> (\<lambda>e. f (snd e)) ` set (AList.update k v al)"
  then obtain k' x where m: "(k', x) \<in> set (AList.update k v al)" and y: "y = f x"
    by auto
  from update_entry [OF m] y show "y \<in> insert (f v) ((\<lambda>e. f (snd e)) ` set al)"
    by force
qed

lemma update_keeps_distinct:
  "distinct (map (\<lambda>e. f (snd e)) al) \<Longrightarrow> f v \<notin> (\<lambda>e. f (snd e)) ` set al \<Longrightarrow>
   distinct (map (\<lambda>e. f (snd e)) (AList.update k v al))"
proof (induction al)
  case Nil
  then show ?case by simp
next
  case (Cons a al)
  obtain ka xa where a: "a = (ka, xa)" by (cases a)
  show ?case
  proof (cases "ka = k")
    case True
    with Cons.prems a show ?thesis by auto
  next
    case False
    from Cons have ih: "distinct (map (\<lambda>e. f (snd e)) (AList.update k v al))" by simp
    from Cons.prems a have "f xa \<noteq> f v" "f xa \<notin> (\<lambda>e. f (snd e)) ` set al" by auto
    with update_image [of f k v al]
    have "f xa \<notin> (\<lambda>e. f (snd e)) ` set (AList.update k v al)" by blast
    with ih False a show ?thesis by simp
  qed
qed

lemma delete_entry: "e \<in> set (AList.delete k al) \<Longrightarrow> e \<in> set al \<and> fst e \<noteq> k"
  by (auto simp: AList.delete_eq)

lemma delete_image:
  "(\<lambda>e. f (snd e)) ` set (AList.delete k al) \<subseteq> (\<lambda>e. f (snd e)) ` set al"
  using delete_entry [of _ k al] by blast

lemma delete_keeps_distinct:
  "distinct (map (\<lambda>e. f (snd e)) al) \<Longrightarrow> distinct (map (\<lambda>e. f (snd e)) (AList.delete k al))"
  by (simp add: AList.delete_eq distinct_map_filter)

lemma update_keeps_all: "list_all P al \<Longrightarrow> P (k, v) \<Longrightarrow> list_all P (AList.update k v al)"
  by (induction al) auto

text \<open>
  Lists without repetition, as they change when a claim goes from the queue to the call
  that processes it, from there to its watcher, and from the watcher to the history.
\<close>

lemma remove1_map_distinct:
  assumes "distinct (map f xs)" and "c \<in> set xs"
  shows "distinct (map f (remove1 c xs))"
    and "set (map f (remove1 c xs)) = set (map f xs) - {f c}"
proof -
  from assms(1) have d: "distinct xs" and i: "inj_on f (set xs)"
    by (simp_all add: distinct_map)
  have sub: "set (remove1 c xs) \<subseteq> set xs"
    by (rule set_remove1_subset)
  from d inj_on_subset [OF i sub] show "distinct (map f (remove1 c xs))"
    by (simp add: distinct_map)
  from d i assms(2) show "set (map f (remove1 c xs)) = set (map f xs) - {f c}"
    by (auto simp: set_remove1_eq inj_on_def)
qed

lemma find_SomeD: "find P xs = Some x \<Longrightarrow> P x \<and> x \<in> set xs"
  by (induction xs) (auto split: if_splits)

lemma move_add: "distinct (q @ r) \<Longrightarrow> x \<notin> set (q @ r) \<Longrightarrow> distinct (q @ x # r)"
  by auto

lemma move_later: "distinct (a @ x # m @ r) \<Longrightarrow> distinct (a @ m @ x # r)"
  by auto

lemma move_drop: "distinct (a @ x # r) \<Longrightarrow> distinct (a @ r)"
  by auto

lemma move_settle:
  "distinct (a @ w @ s @ h) \<Longrightarrow> x \<in> set w \<Longrightarrow> distinct w' \<Longrightarrow> set w' = set w - {x} \<Longrightarrow>
   distinct (a @ w' @ (s @ [x]) @ h)"
  by auto

lemma move_file:
  "distinct (a @ x # s @ h) \<Longrightarrow> distinct h' \<Longrightarrow> set h' \<subseteq> insert x (set h) \<Longrightarrow>
   distinct (a @ s @ h')"
  by auto

lemma move_evict:
  "distinct (a @ h) \<Longrightarrow> distinct h' \<Longrightarrow> set h' \<subseteq> set h \<Longrightarrow> distinct (a @ h')"
  by auto

lemma live_listed:
  "distinct (q @ f @ w @ s @ h) \<Longrightarrow> distinct p \<Longrightarrow> set p \<subseteq> set w \<Longrightarrow> distinct (q @ p @ h)"
  by auto


lemma sendVaultTx_frame:
  "sendVaultTx tx env s = (s', r) \<Longrightarrow>
   claimTxQueue s' = claimTxQueue s \<and> pendingTxQueue s' = pendingTxQueue s
   \<and> historyTxDict s' = historyTxDict s \<and> walletRefilling s' = walletRefilling s"
  by (auto simp: sendVaultTx_def Let_def split: settled.splits)

lemma refillWallet_frame:
  "refillWallet cfg rc env s = (s', r) \<Longrightarrow>
   claimTxQueue s' = claimTxQueue s \<and> pendingTxQueue s' = pendingTxQueue s
   \<and> historyTxDict s' = historyTxDict s \<and> walletRefilling s' = walletRefilling s"
  unfolding refillWallet_def Let_def
  by (auto split: settled.splits if_splits dest: sendVaultTx_frame)

lemma overflowWallet_frame:
  "overflowWallet cfg rc amt env s = (s', r) \<Longrightarrow>
   claimTxQueue s' = claimTxQueue s \<and> pendingTxQueue s' = pendingTxQueue s
   \<and> historyTxDict s' = historyTxDict s \<and> walletRefilling s' = walletRefilling s"
  unfolding overflowWallet_def by (rule sendVaultTx_frame)

lemma sendRefillTx_frame:
  "sendRefillTx cfg rc env action walletBalance s = (s', r) \<Longrightarrow>
   claimTxQueue s' = claimTxQueue s \<and> pendingTxQueue s' = pendingTxQueue s
   \<and> historyTxDict s' = historyTxDict s \<and> walletRefilling s' = walletRefilling s"
  by (cases action)
     (auto simp: sendRefillTx_def split: option.splits sum.splits
           dest: refillWallet_frame overflowWallet_frame)

lemma awaitRefillTx_frame:
  "awaitRefillTx cfg env (s, r) = Some s' \<Longrightarrow>
   claimTxQueue s' = claimTxQueue s \<and> pendingTxQueue s' = pendingTxQueue s
   \<and> historyTxDict s' = historyTxDict s"
  by (auto simp: awaitRefillTx_def split: settled.splits option.splits if_splits prod.splits
           dest!: orPollReceipt_frame)

lemma tryRefillWallet_frame:
  assumes "tryRefillWallet cfg env now s = Some s'"
  shows "claimTxQueue s' = claimTxQueue s \<and> pendingTxQueue s' = pendingTxQueue s
     \<and> historyTxDict s' = historyTxDict s"
proof (cases "ethRefillContract cfg")
  case None
  with assms show ?thesis by (simp add: tryRefillWallet_def)
next
  case (Some rc)
  let ?s1 = "s\<lparr>lastWalletRefillTry := Some now\<rparr>"
  let ?wb = "balance (walletState ?s1) - unclaimedBalance env - getQueuedAmount ?s1"
  show ?thesis
  proof (cases "s' = s \<or> s' = ?s1 \<or> (\<exists>ex. s' = emit (Uncaught ex) ?s1)")
    case True
    then show ?thesis by auto
  next
    case False
    with assms Some obtain action where
      att: "refillAttempt cfg rc env action ?wb (?s1\<lparr>walletRefilling := True\<rparr>) = Some s'"
      by (auto simp: tryRefillWallet_def Let_def split: if_splits option.splits sum.splits)
    obtain s2 r where snd: "sendRefillTx cfg rc env action ?wb (?s1\<lparr>walletRefilling := True\<rparr>) = (s2, r)"
      by (cases "sendRefillTx cfg rc env action ?wb (?s1\<lparr>walletRefilling := True\<rparr>)") auto
    from sendRefillTx_frame [OF snd] awaitRefillTx_frame [of cfg env s2 r s'] att snd
    show ?thesis by (simp add: refillAttempt_def)
  qed
qed

text \<open>The sessions of the claims of a state, part by part.\<close>

lemma live_parts:
  "map session (liveClaims p) =
     map session (claimTxQueue (manager p))
     @ map session (case processing p of None \<Rightarrow> [] | Some f \<Rightarrow> [procClaim f])
     @ map session (watching p)
     @ map session (settling p)
     @ map (\<lambda>e. session (snd e)) (historyTxDict (manager p))"
  by (simp add: liveClaims_def heldClaims_def comp_def)

lemma live_same:
  "map session (liveClaims p') = map session (liveClaims p) \<Longrightarrow> liveUnique p \<Longrightarrow> liveUnique p'"
  by (simp add: liveUnique_def)

text \<open>The invariant gives what the claim asks for.\<close>

lemma live_sessionUnique:
  assumes "liveUnique p" and "pendingWatched p"
  shows "sessionUnique (manager p)"
proof -
  let ?P = "pendingTxQueue (manager p)"
  from assms(2) have keys: "distinct (map fst ?P)"
    and held: "\<forall>e\<in>set ?P. txhash (snd e) = Some (fst e) \<and> snd e \<in> set (watching p)"
    by (auto simp: pendingWatched_def list_all_iff)
  from assms(1) have live:
    "distinct (map session (claimTxQueue (manager p))
               @ map session (case processing p of None \<Rightarrow> [] | Some f \<Rightarrow> [procClaim f])
               @ map session (watching p)
               @ map session (settling p)
               @ map (\<lambda>e. session (snd e)) (historyTxDict (manager p)))"
    unfolding liveUnique_def live_parts .
  then have "distinct (map session (watching p))"
    by simp
  then have inj: "inj_on session (set (watching p))"
    by (simp add: distinct_map)
  have "inj_on (\<lambda>e. session (snd e)) (set ?P)"
  proof (rule inj_onI)
    fix e1 e2
    assume m: "e1 \<in> set ?P" "e2 \<in> set ?P" and eq: "session (snd e1) = session (snd e2)"
    from m held have w: "snd e1 \<in> set (watching p)" "snd e2 \<in> set (watching p)"
      and h: "txhash (snd e1) = Some (fst e1)" "txhash (snd e2) = Some (fst e2)"
      by simp_all
    from inj eq w have "snd e1 = snd e2"
      by (rule inj_onD)
    with h have "fst e1 = fst e2" by simp
    with \<open>snd e1 = snd e2\<close> show "e1 = e2"
      by (simp add: prod_eq_iff)
  qed
  moreover from keys have "distinct ?P"
    by (simp add: distinct_map)
  ultimately have d: "distinct (map (\<lambda>e. session (snd e)) ?P)"
    by (simp add: distinct_map)
  from held have sub: "set (map (\<lambda>e. session (snd e)) ?P) \<subseteq> set (map session (watching p))"
    by auto
  have "map session (allClaims (manager p)) =
      map session (claimTxQueue (manager p)) @ map (\<lambda>e. session (snd e)) ?P
      @ map (\<lambda>e. session (snd e)) (historyTxDict (manager p))"
    by (simp add: allClaims_def comp_def)
  with live_listed [OF live d sub] show ?thesis
    by (simp only: sessionUnique_def)
qed

text \<open>Each turn keeps the invariant.\<close>

lemma add_preserves:
  assumes "liveUnique p" and "pendingWatched p"
    and "sessId \<notin> set (map session (liveClaims p))"
  shows "liveUnique (p\<lparr>manager := fst (addClaimTransaction now tgt amt sessId (manager p))\<rparr>)
     \<and> pendingWatched (p\<lparr>manager := fst (addClaimTransaction now tgt amt sessId (manager p))\<rparr>)"
proof -
  let ?p' = "p\<lparr>manager := fst (addClaimTransaction now tgt amt sessId (manager p))\<rparr>"
  let ?r = "map session (case processing p of None \<Rightarrow> [] | Some f \<Rightarrow> [procClaim f])
            @ map session (watching p) @ map session (settling p)
            @ map (\<lambda>e. session (snd e)) (historyTxDict (manager p))"
  have b: "map session (liveClaims p) = map session (claimTxQueue (manager p)) @ ?r"
    by (simp add: live_parts)
  have a: "map session (liveClaims ?p') = map session (claimTxQueue (manager p)) @ sessId # ?r"
    by (simp add: live_parts addClaimTransaction_def new_ClaimTx_def Let_def)
  from assms(1) have d: "distinct (map session (claimTxQueue (manager p)) @ ?r)"
    unfolding liveUnique_def b .
  from assms(3) have n: "sessId \<notin> set (map session (claimTxQueue (manager p)) @ ?r)"
    unfolding b .
  have "liveUnique ?p'"
    unfolding liveUnique_def a by (rule move_add [OF d n])
  moreover from assms(2) have "pendingWatched ?p'"
    by (simp add: pendingWatched_def addClaimTransaction_def Let_def)
  ultimately show ?thesis by simp
qed

lemma enterProcessQueueTx_frame:
  assumes "enterProcessQueueTx cfg c s = (s', f)"
  shows "claimTxQueue s' = claimTxQueue s" "pendingTxQueue s' = pendingTxQueue s"
    "historyTxDict s' = historyTxDict s"
    "f = None \<or> (\<exists>fl. f = Some fl \<and> session (procClaim fl) = session c)"
  using assms
  by (auto simp: enterProcessQueueTx_def buildTx_def Let_def split: if_splits prod.splits)

lemma takeNext_preserves:
  assumes "liveUnique p" and "pendingWatched p" and "takeNext cfg p = Some p'"
  shows "liveUnique p' \<and> pendingWatched p'"
proof -
  from assms(3) obtain c rest s' f where idle: "processing p = None"
    and q: "claimTxQueue (manager p) = c # rest"
    and e: "enterProcessQueueTx cfg c
              ((manager p)\<lparr>claimTxQueue := rest, lastProcessedClaimTxIdx := queueIdx c\<rparr>) = (s', f)"
    and p': "p' = p\<lparr>manager := s', processing := f\<rparr>"
    by (auto simp: takeNext_def Let_def split: option.splits list.splits if_splits prod.splits)
  note fr = enterProcessQueueTx_frame [OF e]
  let ?r = "map session (watching p) @ map session (settling p)
            @ map (\<lambda>e. session (snd e)) (historyTxDict (manager p))"
  have b: "map session (liveClaims p) = [] @ session c # map session rest @ ?r"
    by (simp add: live_parts idle q)
  from assms(1) have d: "distinct ([] @ session c # map session rest @ ?r)"
    unfolding liveUnique_def b .
  have "liveUnique p'"
  proof (cases f)
    case None
    then have a: "map session (liveClaims p') = [] @ map session rest @ ?r"
      by (simp add: live_parts p' fr(1) fr(3))
    show ?thesis
      unfolding liveUnique_def a by (rule move_drop [OF d])
  next
    case (Some fl)
    with fr(4) have "session (procClaim fl) = session c" by simp
    with Some have a: "map session (liveClaims p') = [] @ map session rest @ session c # ?r"
      by (simp add: live_parts p' fr(1) fr(3))
    show ?thesis
      unfolding liveUnique_def a by (rule move_later [OF d])
  qed
  moreover from assms(2) have "pendingWatched p'"
    by (simp add: pendingWatched_def p' fr(2))
  ultimately show ?thesis by simp
qed

lemma catchPass_preserves:
  assumes "liveUnique p" and "pendingWatched p" and "processing p = Some f"
  shows "liveUnique (catchPass ex f p) \<and> pendingWatched (catchPass ex f p)"
proof -
  have "map session (liveClaims (catchPass ex f p)) = map session (liveClaims p)"
    by (simp add: live_parts catchPass_def assms(3))
  from live_same [OF this assms(1)] assms(2) show ?thesis
    by (simp add: pendingWatched_def catchPass_def)
qed

lemma buildSettles_preserves:
  assumes "liveUnique p" and "pendingWatched p" and "buildSettles r p = Some p'"
  shows "liveUnique p' \<and> pendingWatched p'"
proof -
  from assms(3) obtain f where f: "processing p = Some f"
    and ph: "procPhase f = AwaitBuild"
    by (auto simp: buildSettles_def split: option.splits if_splits)
  show ?thesis
  proof (cases r)
    case (Resolved hex)
    with assms(3) [symmetric] f ph
    have p': "p' = p\<lparr>manager := emit (SendTransaction hex) (manager p),
                     processing := Some (f\<lparr>procClaim := (procClaim f)\<lparr>txhex := Some hex\<rparr>,
                                           procPhase := AwaitSend\<rparr>)\<rparr>"
      by (simp add: buildSettles_def)
    have "map session (liveClaims p') = map session (liveClaims p)"
      by (simp add: live_parts p' f)
    from live_same [OF this assms(1)] assms(2) show ?thesis
      by (simp add: pendingWatched_def p')
  next
    case (Rejected ex)
    with assms(3) [symmetric] f ph have "p' = catchPass ex f p"
      by (simp add: buildSettles_def)
    with catchPass_preserves [OF assms(1,2) f] show ?thesis by simp
  qed
qed

lemma sendSettles_preserves:
  assumes "liveUnique p" and "pendingWatched p" and "sendSettles cfg r p = Some p'"
  shows "liveUnique p' \<and> pendingWatched p'"
proof -
  from assms(3) obtain f where f: "processing p = Some f"
    and ph: "procPhase f = AwaitSend"
    by (auto simp: sendSettles_def split: option.splits if_splits)
  show ?thesis
  proof (cases r)
    case (Rejected ex)
    with assms(3) [symmetric] f ph have "p' = catchPass ex f p"
      by (simp add: sendSettles_def)
    with catchPass_preserves [OF assms(1,2) f] show ?thesis by simp
  next
    case (Resolved hash)
    let ?c2 = "(procClaim f)\<lparr>txhash := Some hash, status := PENDING\<rparr>"
    from assms(3) [symmetric] f ph Resolved
    have m: "claimTxQueue (manager p') = claimTxQueue (manager p)"
      "historyTxDict (manager p') = historyTxDict (manager p)"
      "pendingTxQueue (manager p') = AList.update hash ?c2 (pendingTxQueue (manager p))"
      and o: "processing p' = None" "watching p' = watching p @ [?c2]"
        "settling p' = settling p"
      by (simp_all add: sendSettles_def Let_def updateFaucetStatus_def)
    let ?q = "map session (claimTxQueue (manager p))"
    let ?r = "map session (settling p)
              @ map (\<lambda>e. session (snd e)) (historyTxDict (manager p))"
    have b: "map session (liveClaims p) =
        ?q @ session (procClaim f) # map session (watching p) @ ?r"
      by (simp add: live_parts f)
    have a: "map session (liveClaims p') =
        ?q @ map session (watching p) @ session (procClaim f) # ?r"
      by (simp add: live_parts m o)
    from assms(1) have d: "distinct (?q @ session (procClaim f) # map session (watching p) @ ?r)"
      unfolding liveUnique_def b .
    have "liveUnique p'"
      unfolding liveUnique_def a by (rule move_later [OF d])
    moreover have "pendingWatched p'"
    proof -
      from assms(2) have k: "distinct (map fst (pendingTxQueue (manager p)))"
        and al: "list_all (\<lambda>(hash, claimTx). txhash claimTx = Some hash
                            \<and> claimTx \<in> set (watching p)) (pendingTxQueue (manager p))"
        by (simp_all add: pendingWatched_def)
      from al have al': "list_all (\<lambda>(hash, claimTx). txhash claimTx = Some hash
                            \<and> claimTx \<in> set (watching p @ [?c2])) (pendingTxQueue (manager p))"
        by (auto simp: list_all_iff)
      have "list_all (\<lambda>(hash, claimTx). txhash claimTx = Some hash
                            \<and> claimTx \<in> set (watching p @ [?c2]))
              (AList.update hash ?c2 (pendingTxQueue (manager p)))"
        by (rule update_keeps_all [OF al']) simp
      with k show ?thesis
        by (simp add: pendingWatched_def m o distinct_update)
    qed
    ultimately show ?thesis by simp
  qed
qed

lemma sleepEnds_preserves:
  assumes "liveUnique p" and "pendingWatched p" and "sleepEnds p = Some p'"
  shows "liveUnique p' \<and> pendingWatched p'"
proof -
  from assms(3) obtain f where f: "processing p = Some f"
    and p': "p' = p\<lparr>processing := Some (f\<lparr>procPhase := AwaitReload\<rparr>)\<rparr>"
    by (auto simp: sleepEnds_def split: option.splits if_splits)
  have "map session (liveClaims p') = map session (liveClaims p)"
    by (simp add: live_parts p' f)
  from live_same [OF this assms(1)] assms(2) show ?thesis
    by (simp add: pendingWatched_def p')
qed

lemma reloadSettles_preserves:
  assumes "liveUnique p" and "pendingWatched p" and "reloadSettles cfg now r p = Some p'"
  shows "liveUnique p' \<and> pendingWatched p'"
proof -
  from assms(3) obtain f where f: "processing p = Some f"
    and ph: "procPhase f = AwaitReload"
    by (auto simp: reloadSettles_def split: option.splits if_splits)
  let ?s1 = "loadWalletState cfg now r (manager p)"
  show ?thesis
  proof (cases "procRetry f < 3")
    case True
    with assms(3) [symmetric] f ph have p': "p' =
        p\<lparr>manager := emit (snd (buildTx cfg (procClaim f) ?s1)) ?s1,
          processing := Some (f\<lparr>procClaim := fst (buildTx cfg (procClaim f) ?s1),
                                procRetry := procRetry f + 1,
                                procPhase := AwaitBuild\<rparr>)\<rparr>"
      by (simp add: reloadSettles_def Let_def split: prod.splits)
    have "map session (liveClaims p') = map session (liveClaims p)"
      by (simp add: live_parts p' f buildTx_def Let_def)
    from live_same [OF this assms(1)] assms(2) show ?thesis
      by (simp add: pendingWatched_def p')
  next
    case False
    with assms(3) [symmetric] f ph have p': "p' =
        p\<lparr>manager := emit (Emit (session (procClaim f)) ''failed'') ?s1, processing := None\<rparr>"
      by (simp add: reloadSettles_def Let_def)
    let ?q = "map session (claimTxQueue (manager p))"
    let ?r = "map session (watching p) @ map session (settling p)
              @ map (\<lambda>e. session (snd e)) (historyTxDict (manager p))"
    have b: "map session (liveClaims p) = ?q @ session (procClaim f) # ?r"
      by (simp add: live_parts f)
    have a: "map session (liveClaims p') = ?q @ ?r"
      by (simp add: live_parts p')
    from assms(1) have d: "distinct (?q @ session (procClaim f) # ?r)"
      unfolding liveUnique_def b .
    have "liveUnique p'"
      unfolding liveUnique_def a by (rule move_drop [OF d])
    with assms(2) show ?thesis
      by (simp add: pendingWatched_def p')
  qed
qed

lemma receiptHandlers_containers:
  assumes "txhash c = Some hash"
    and "receiptHandlers txPromise polls c s = Some (s', c')"
  shows "claimTxQueue s' = claimTxQueue s"
    "pendingTxQueue s' = AList.delete hash (pendingTxQueue s)"
    "historyTxDict s' = historyTxDict s"
    "session c' = session c"
proof -
  from assms obtain outcome s1 where
    o: "orPollReceipt txPromise polls s = Some (outcome, s1)"
    and r: "(s', c') = (case outcome of
                         Resolved receipt \<Rightarrow> onReceipt hash receipt c s1
                       | Rejected error \<Rightarrow> onReceiptError hash error c s1)"
    by (auto simp: receiptHandlers_def split: option.splits)
  from orPollReceipt_frame [OF o]
  have fr: "claimTxQueue s1 = claimTxQueue s" "pendingTxQueue s1 = pendingTxQueue s"
    "historyTxDict s1 = historyTxDict s" by simp_all
  have "claimTxQueue s' = claimTxQueue s
      \<and> pendingTxQueue s' = AList.delete hash (pendingTxQueue s)
      \<and> historyTxDict s' = historyTxDict s \<and> session c' = session c"
  proof (cases outcome)
    case (Resolved receipt)
    with r fr show ?thesis
      by (simp add: onReceipt_def Let_def)
  next
    case (Rejected error)
    with r fr show ?thesis
      by (simp add: onReceiptError_def)
  qed
  then show "claimTxQueue s' = claimTxQueue s"
    "pendingTxQueue s' = AList.delete hash (pendingTxQueue s)"
    "historyTxDict s' = historyTxDict s"
    "session c' = session c"
    by simp_all
qed

lemma receiptSettles_preserves:
  assumes "liveUnique p" and "pendingWatched p"
    and "step cfg (ReceiptSettles hash txPromise polls) p = Some p'"
  shows "liveUnique p' \<and> pendingWatched p'"
proof -
  from assms(3) obtain c s' c' where
    fnd: "find (\<lambda>c. txhash c = Some hash) (watching p) = Some c"
    and rh: "receiptHandlers txPromise polls c (manager p) = Some (s', c')"
    and p': "p' = p\<lparr>manager := s', watching := remove1 c (watching p),
                     settling := settling p @ [c']\<rparr>"
    by (auto split: option.splits)
  from find_SomeD [OF fnd] have h: "txhash c = Some hash" and mem: "c \<in> set (watching p)"
    by simp_all
  note fr = receiptHandlers_containers [OF h rh]
  let ?a = "map session (claimTxQueue (manager p))
            @ map session (case processing p of None \<Rightarrow> [] | Some f \<Rightarrow> [procClaim f])"
  let ?h = "map (\<lambda>e. session (snd e)) (historyTxDict (manager p))"
  have b: "map session (liveClaims p) =
      ?a @ map session (watching p) @ map session (settling p) @ ?h"
    by (simp add: live_parts)
  have a: "map session (liveClaims p') =
      ?a @ map session (remove1 c (watching p)) @ (map session (settling p) @ [session c]) @ ?h"
    by (simp add: live_parts p' fr)
  from assms(1) have d: "distinct (?a @ map session (watching p) @ map session (settling p) @ ?h)"
    unfolding liveUnique_def b .
  then have dw: "distinct (map session (watching p))" by simp
  from mem have inw: "session c \<in> set (map session (watching p))" by simp
  have "liveUnique p'"
    unfolding liveUnique_def a
    by (rule move_settle [OF d inw remove1_map_distinct [OF dw mem]])
  moreover have "pendingWatched p'"
  proof -
    from assms(2) have k: "distinct (map fst (pendingTxQueue (manager p)))"
      and al: "\<forall>e\<in>set (pendingTxQueue (manager p)).
                txhash (snd e) = Some (fst e) \<and> snd e \<in> set (watching p)"
      by (auto simp: pendingWatched_def list_all_iff)
    have "\<forall>e\<in>set (AList.delete hash (pendingTxQueue (manager p))).
            txhash (snd e) = Some (fst e) \<and> snd e \<in> set (remove1 c (watching p))"
    proof
      fix e assume "e \<in> set (AList.delete hash (pendingTxQueue (manager p)))"
      from delete_entry [OF this] have m: "e \<in> set (pendingTxQueue (manager p))"
        and ne: "fst e \<noteq> hash" by simp_all
      from al m have t: "txhash (snd e) = Some (fst e)" and w: "snd e \<in> set (watching p)"
        by simp_all
      from t ne h have "snd e \<noteq> c" by auto
      with w t show "txhash (snd e) = Some (fst e) \<and> snd e \<in> set (remove1 c (watching p))"
        by simp
    qed
    then have "list_all (\<lambda>(hash, claimTx). txhash claimTx = Some hash
                            \<and> claimTx \<in> set (remove1 c (watching p)))
                 (AList.delete hash (pendingTxQueue (manager p)))"
      by (auto simp: list_all_iff)
    with k show ?thesis
      by (simp add: pendingWatched_def p' fr distinct_delete)
  qed
  ultimately show ?thesis by simp
qed

lemma historyFiled_preserves:
  assumes "liveUnique p" and "pendingWatched p" and "step cfg HistoryFiled p = Some p'"
  shows "liveUnique p' \<and> pendingWatched p'"
proof -
  from assms(3) obtain c rest n where st: "settling p = c # rest"
    and p': "p' = p\<lparr>manager := (manager p)
                       \<lparr>historyTxDict := AList.update n c (historyTxDict (manager p)),
                        timeouts := timeouts (manager p) @ [(30 * 60 * 1000, EvictHistory n)]\<rparr>,
                     settling := rest\<rparr>"
    by (auto simp: fileHistory_def split: list.splits option.splits)
  let ?H = "historyTxDict (manager p)"
  let ?a = "map session (claimTxQueue (manager p))
            @ map session (case processing p of None \<Rightarrow> [] | Some f \<Rightarrow> [procClaim f])
            @ map session (watching p)"
  have b: "map session (liveClaims p) =
      ?a @ session c # map session rest @ map (\<lambda>e. session (snd e)) ?H"
    by (simp add: live_parts st)
  have a: "map session (liveClaims p') =
      ?a @ map session rest @ map (\<lambda>e. session (snd e)) (AList.update n c ?H)"
    by (simp add: live_parts p')
  from assms(1)
  have d: "distinct (?a @ session c # map session rest @ map (\<lambda>e. session (snd e)) ?H)"
    unfolding liveUnique_def b .
  then have dh: "distinct (map (\<lambda>e. session (snd e)) ?H)"
    and nh: "session c \<notin> set (map (\<lambda>e. session (snd e)) ?H)"
    by simp_all
  from nh have nh': "session c \<notin> (\<lambda>e. session (snd e)) ` set ?H" by simp
  have d': "distinct (map (\<lambda>e. session (snd e)) (AList.update n c ?H))"
    by (rule update_keeps_distinct [OF dh nh'])
  have sub: "set (map (\<lambda>e. session (snd e)) (AList.update n c ?H))
               \<subseteq> insert (session c) (set (map (\<lambda>e. session (snd e)) ?H))"
    using update_image [of session n c ?H] by simp
  have "liveUnique p'"
    unfolding liveUnique_def a by (rule move_file [OF d d' sub])
  moreover from assms(2) have "pendingWatched p'"
    by (simp add: pendingWatched_def p')
  ultimately show ?thesis by simp
qed

lemma timerRuns_preserves:
  assumes "liveUnique p" and "pendingWatched p" and "step cfg TimerRuns p = Some p'"
  shows "liveUnique p' \<and> pendingWatched p'"
proof -
  from assms(3) obtain delay t rest where
    p': "p' = p\<lparr>manager := runTimer t ((manager p)\<lparr>timeouts := rest\<rparr>)\<rparr>"
    by (auto split: list.splits)
  obtain n where t: "t = EvictHistory n" by (cases t)
  let ?H = "historyTxDict (manager p)"
  let ?a = "map session (claimTxQueue (manager p))
            @ map session (case processing p of None \<Rightarrow> [] | Some f \<Rightarrow> [procClaim f])
            @ map session (watching p) @ map session (settling p)"
  have b: "map session (liveClaims p) = ?a @ map (\<lambda>e. session (snd e)) ?H"
    by (simp add: live_parts)
  have a: "map session (liveClaims p') = ?a @ map (\<lambda>e. session (snd e)) (AList.delete n ?H)"
    by (simp add: live_parts p' t)
  from assms(1) have d: "distinct (?a @ map (\<lambda>e. session (snd e)) ?H)"
    unfolding liveUnique_def b .
  then have dh: "distinct (map (\<lambda>e. session (snd e)) ?H)" by simp
  have d': "distinct (map (\<lambda>e. session (snd e)) (AList.delete n ?H))"
    by (rule delete_keeps_distinct [OF dh])
  have sub: "set (map (\<lambda>e. session (snd e)) (AList.delete n ?H))
               \<subseteq> set (map (\<lambda>e. session (snd e)) ?H)"
    using delete_image [of session n ?H] by simp
  have "liveUnique p'"
    unfolding liveUnique_def a by (rule move_evict [OF d d' sub])
  moreover from assms(2) have "pendingWatched p'"
    by (simp add: pendingWatched_def p' t)
  ultimately show ?thesis by simp
qed

lemma step_preserves:
  assumes "liveUnique p" and "pendingWatched p"
    and "case x of AddClaim now tgt amt sessId \<Rightarrow> sessId \<notin> set (map session (liveClaims p))
                 | _ \<Rightarrow> True"
    and "step cfg x p = Some p'"
  shows "liveUnique p' \<and> pendingWatched p'"
proof (cases x)
  case (AddClaim now tgt amt sessId)
  with assms(3) have fresh: "sessId \<notin> set (map session (liveClaims p))" by simp
  from AddClaim assms(4) [symmetric]
  have "p' = p\<lparr>manager := fst (addClaimTransaction now tgt amt sessId (manager p))\<rparr>"
    by simp
  with add_preserves [OF assms(1,2) fresh, of now tgt amt] show ?thesis by simp
next
  case TakeNext
  with assms(4) have "takeNext cfg p = Some p'" by simp
  from takeNext_preserves [OF assms(1,2) this] show ?thesis .
next
  case (BuildSettles r)
  with assms(4) have "buildSettles r p = Some p'" by simp
  from buildSettles_preserves [OF assms(1,2) this] show ?thesis .
next
  case (SendSettles r)
  with assms(4) have "sendSettles cfg r p = Some p'" by simp
  from sendSettles_preserves [OF assms(1,2) this] show ?thesis .
next
  case SleepEnds
  with assms(4) have "sleepEnds p = Some p'" by simp
  from sleepEnds_preserves [OF assms(1,2) this] show ?thesis .
next
  case (ReloadSettles now r)
  with assms(4) have "reloadSettles cfg now r p = Some p'" by simp
  from reloadSettles_preserves [OF assms(1,2) this] show ?thesis .
next
  case (ReceiptSettles hash txPromise polls)
  with assms(4) have "step cfg (ReceiptSettles hash txPromise polls) p = Some p'" by simp
  from receiptSettles_preserves [OF assms(1,2) this] show ?thesis .
next
  case HistoryFiled
  with assms(4) have "step cfg HistoryFiled p = Some p'" by simp
  from historyFiled_preserves [OF assms(1,2) this] show ?thesis .
next
  case TimerRuns
  with assms(4) have "step cfg TimerRuns p = Some p'" by simp
  from timerRuns_preserves [OF assms(1,2) this] show ?thesis .
next
  case (Reload now r)
  with assms(4) [symmetric]
  have p': "p' = p\<lparr>manager := loadWalletState cfg now r (manager p)\<rparr>" by simp
  have "map session (liveClaims p') = map session (liveClaims p)"
    by (simp add: live_parts p')
  from live_same [OF this assms(1)] assms(2) show ?thesis
    by (simp add: pendingWatched_def p')
next
  case (TryRefill env now)
  with assms(4) obtain s' where t: "tryRefillWallet cfg env now (manager p) = Some s'"
    and p': "p' = p\<lparr>manager := s'\<rparr>"
    by (auto split: if_splits)
  note fr = tryRefillWallet_frame [OF t]
  have "map session (liveClaims p') = map session (liveClaims p)"
    by (simp add: live_parts p' fr)
  from live_same [OF this assms(1)] assms(2) show ?thesis
    by (simp add: pendingWatched_def p' fr)
qed

lemma run_preserves:
  "liveUnique p \<Longrightarrow> pendingWatched p \<Longrightarrow> freshAdds cfg ops p \<Longrightarrow> run cfg ops p = Some p' \<Longrightarrow>
   liveUnique p' \<and> pendingWatched p'"
proof (induction ops arbitrary: p)
  case Nil
  then show ?case by simp
next
  case (Cons x xs)
  from Cons.prems(4) obtain p1 where st: "step cfg x p = Some p1"
    and rn: "run cfg xs p1 = Some p'"
    by (auto split: option.splits)
  from Cons.prems(3) st have fresh: "case x of
        AddClaim now tgt amt sessId \<Rightarrow> sessId \<notin> set (map session (liveClaims p))
      | _ \<Rightarrow> True" and rest: "freshAdds cfg xs p1"
    by simp_all
  from step_preserves [OF Cons.prems(1,2) fresh st]
  have "liveUnique p1" "pendingWatched p1" by simp_all
  from Cons.IH [OF this rest rn] show ?case .
qed

text \<open>
  C2 (amended). Start from a state in which no two claims share a session, among the
  claims in the queue and in the history and the claims that a call of
  \<^verbatim>\<open>processQueueTx\<close> or a receipt watcher holds, and in which the pending claims are
  claims that watchers hold, each under its own hash. After any run of the turns in which
  \<^verbatim>\<open>addClaimTransaction\<close> is only called with a session that none of these claims
  has at that moment, no two claims in queue, pending and history share a session.
\<close>

theorem C2_sessions_unique:
  assumes "liveUnique p" and "pendingWatched p"
    and "freshAdds cfg ops p"
    and "run cfg ops p = Some p'"
  shows "sessionUnique (manager p')"
proof -
  from run_preserves [OF assms] have "liveUnique p'" "pendingWatched p'" by simp_all
  then show ?thesis by (rule live_sessionUnique)
qed


lemma exPending_eval:
  "exPending =
     exManager
       \<lparr>walletState := \<lparr>ready = True, nonce = 8, balance = 9000000000000000000,
                         nativeBalance = 9000000000000000000\<rparr>,
        pendingTxQueue := [(''0x7a2b'', exPendingClaim)],
        lastWalletRefresh := 1700000010,
        effects := [Emit ''s1'' ''processing'',
                    BuildEthTx ''0xA1'' 1000000000000000000 5 None 21000,
                    SendTransaction ''f86b05'', Sleep 2000, ReadWalletState,
                    SetFaucetStatus NORMAL,
                    BuildEthTx ''0xA1'' 1000000000000000000 7 None 21000,
                    SendTransaction ''f86b07'', SetFaucetStatus NORMAL,
                    Emit ''s1'' ''pending'']\<rparr>"
  unfolding exPending_def exPendingClaim_def
  by (simp add: processQueueTx_def submitLoop.simps sendAttempt_def buildTx_def buildEthTx_def
                exConfig_def exManager_def exClaim_def exRetryEnv_def initialManager_def
                addClaimTransaction_def new_ClaimTx_def Let_def loadWalletState_def
                updateFaucetStatus_def emit_def newStatus_def removeQueuedClaimTx_def)

lemma exPendingClaim_eval:
  "exPendingClaim =
     \<lparr> queueIdx = Some 1, status = PENDING, time = 1700000000000, target = ''0xA1'',
       amount = 1000000000000000000, session = ''s1'', nonce = Some 7,
       txhex = Some ''f86b07'', txhash = Some ''0x7a2b'', txblock = None, txfee = 0,
       retryCount = 0, failReason = None \<rparr>"
  unfolding exPendingClaim_def
  by (simp add: processQueueTx_def submitLoop.simps sendAttempt_def buildTx_def buildEthTx_def
                exConfig_def exManager_def exClaim_def exRetryEnv_def initialManager_def
                addClaimTransaction_def new_ClaimTx_def Let_def loadWalletState_def
                updateFaucetStatus_def emit_def newStatus_def removeQueuedClaimTx_def)

text \<open>
  The spec's first scenario, with the receipt found by the second poll: 21000 gas at
  1 gwei on a claim of \<open>10 ^ 18\<close> wei.
\<close>

theorem C5_receipt_watcher_witness:
  "\<exists>s' c'.
     receiptWatcher (Rejected ''Error: Transaction was not mined within 50 blocks'')
       [PollPending, PollReceipt exReceipt] exPendingClaim exPending = Some (s', c')
     \<and> map_of (pendingTxQueue s') ''0x7a2b'' = None
     \<and> map_of (historyTxDict s') 7 = Some c'
     \<and> (1800000, EvictHistory 7) \<in> set (timeouts s')
     \<and> ClaimTx.status c' = CONFIRMED
     \<and> txblock c' = Some 100
     \<and> txfee c' = 21000000000000
     \<and> nativeBalance (walletState s') = 8999979000000000000
     \<and> balance (walletState s') = 8999979000000000000"
  using C5_receipt_watcher
    [of exPendingClaim "''0x7a2b''" 7 exPending exConfig
        "Rejected ''Error: Transaction was not mined within 50 blocks''"
        "[PollPending, PollReceipt exReceipt]" "Resolved exReceipt"
        "emit (Sleep 30000) (emit (Sleep 30000) exPending)"]
  by (auto simp: exPendingClaim_eval exPending_eval orPollReceipt_def exConfig_def
                 exManager_def initialManager_def exReceipt_def)

text \<open>
  C2, as the claim states it, fails: \<open>addClaimTransaction\<close> does not look for the
  session, so two calls with the session \<open>s1\<close> leave two claims of that session in the
  queue.
\<close>

theorem C2_sessions_unique_counterexample:
  "sessionUnique exManager
   \<and> map_option (\<lambda>p. sessionUnique (manager p))
       (run exConfig [AddClaim 1700000000000 ''0xA1'' 1000000000000000000 ''s1'',
                      AddClaim 1700000000500 ''0xB2'' 2000000000000000000 ''s1'']
          (startRun exManager)) = Some False
   \<and> map_option (\<lambda>p. map target (filter (\<lambda>c. session c = ''s1'') (allClaims (manager p))))
       (run exConfig [AddClaim 1700000000000 ''0xA1'' 1000000000000000000 ''s1'',
                      AddClaim 1700000000500 ''0xB2'' 2000000000000000000 ''s1'']
          (startRun exManager)) = Some [''0xA1'', ''0xB2'']"
  by (simp add: sessionUnique_def allClaims_def exManager_def initialManager_def startRun_def
                addClaimTransaction_def new_ClaimTx_def Let_def)

text \<open>
  Why the claims that suspended code holds count. Between line 455 and line 545 the
  claim that is being processed is neither in the queue nor pending nor in the history:
  after the first two turns below the three are empty. A claim of the same session that
  is added then stays in the queue when the first one becomes pending.
\<close>

lemma claim_in_flight_is_not_listed:
  "map_option (\<lambda>p. (allClaims (manager p), map session (heldClaims p)))
     (run exConfig [AddClaim 1700000000000 ''0xA1'' 1000000000000000000 ''s1'', TakeNext]
        (startRun exManager)) = Some ([], [''s1''])"
  "map_option (\<lambda>p. map (\<lambda>c. (session c, target c, ClaimTx.status c)) (allClaims (manager p)))
     (run exConfig [AddClaim 1700000000000 ''0xA1'' 1000000000000000000 ''s1'', TakeNext,
                    AddClaim 1700000000500 ''0xB2'' 2000000000000000000 ''s1'',
                    BuildSettles (Resolved ''f86b05''), SendSettles (Resolved ''0x7a2b'')]
        (startRun exManager))
   = Some [(''s1'', ''0xB2'', QUEUE), (''s1'', ''0xA1'', PENDING)]"
  by (simp_all add: allClaims_def heldClaims_def startRun_def takeNext_def
                enterProcessQueueTx_def buildSettles_def sendSettles_def
                exConfig_def exManager_def initialManager_def
                addClaimTransaction_def new_ClaimTx_def Let_def emit_def
                buildTx_def buildEthTx_def serialize_def addQueuedClaimTx_def
                updateFaucetStatus_def newStatus_def removeQueuedClaimTx_def)

text \<open>
  The run \<open>exTurns\<close> meets the hypotheses of C2. After its first fifteen turns \<open>s3\<close> is
  queued, \<open>s2\<close> is pending and \<open>s1\<close> is in the history under nonce 7; at its end the
  history is empty and \<open>s1\<close> is queued again.
\<close>

theorem C2_sessions_unique_witness:
  "map_option (\<lambda>p. sessionUnique (manager p)) (run exConfig exTurns (startRun exManager))
     = Some True
   \<and> map_option
        (\<lambda>p. (map session (claimTxQueue (manager p)),
              map (\<lambda>e. (fst e, session (snd e))) (pendingTxQueue (manager p)),
              map (\<lambda>e. (fst e, session (snd e))) (historyTxDict (manager p))))
        (run exConfig (take 15 exTurns) (startRun exManager))
      = Some ([''s3''], [(''0x8c3d'', ''s2'')], [(7, ''s1'')])
   \<and> map_option
        (\<lambda>p. (map session (claimTxQueue (manager p)),
              map (\<lambda>e. (fst e, session (snd e))) (pendingTxQueue (manager p)),
              map (\<lambda>e. (fst e, session (snd e))) (historyTxDict (manager p))))
        (run exConfig exTurns (startRun exManager))
      = Some ([''s3'', ''s1''], [(''0x8c3d'', ''s2'')], [])"
proof -
  have init: "liveUnique (startRun exManager)" "pendingWatched (startRun exManager)"
    by (simp_all add: liveUnique_def liveClaims_def heldClaims_def pendingWatched_def
                      startRun_def exManager_def initialManager_def)
  have r: "run exConfig exTurns (startRun exManager)
             = Some (the (run exConfig exTurns (startRun exManager)))"
    by (simp add: exTurns_def
                  startRun_def takeNext_def enterProcessQueueTx_def buildSettles_def
                  sendSettles_def catchPass_def sleepEnds_def reloadSettles_def
                  receiptHandlers_def fileHistory_def
                  orPollReceipt_def onReceipt_def
                  exConfig_def exManager_def initialManager_def exReceipt_def
                  addClaimTransaction_def new_ClaimTx_def Let_def emit_def
                  buildTx_def buildEthTx_def
                  loadWalletState_def serialize_def addQueuedClaimTx_def
                  updateFaucetStatus_def newStatus_def removeQueuedClaimTx_def)
  have f: "freshAdds exConfig exTurns (startRun exManager)"
    by (simp add: exTurns_def liveClaims_def heldClaims_def
                  startRun_def takeNext_def enterProcessQueueTx_def buildSettles_def
                  sendSettles_def catchPass_def sleepEnds_def reloadSettles_def
                  receiptHandlers_def fileHistory_def
                  orPollReceipt_def onReceipt_def
                  exConfig_def exManager_def initialManager_def exReceipt_def
                  addClaimTransaction_def new_ClaimTx_def Let_def emit_def
                  buildTx_def buildEthTx_def
                  loadWalletState_def serialize_def addQueuedClaimTx_def
                  updateFaucetStatus_def newStatus_def removeQueuedClaimTx_def)
  from C2_sessions_unique [OF init f r]
  have u: "sessionUnique (manager (the (run exConfig exTurns (startRun exManager))))" .
  have c1: "map_option (\<lambda>p. sessionUnique (manager p))
              (run exConfig exTurns (startRun exManager)) = Some True"
    by (subst r) (simp only: option.map u)
  have c2: "map_option
        (\<lambda>p. (map session (claimTxQueue (manager p)),
              map (\<lambda>e. (fst e, session (snd e))) (pendingTxQueue (manager p)),
              map (\<lambda>e. (fst e, session (snd e))) (historyTxDict (manager p))))
        (run exConfig (take 15 exTurns) (startRun exManager))
      = Some ([''s3''], [(''0x8c3d'', ''s2'')], [(7, ''s1'')])"
    by (simp add: exTurns_def
                  startRun_def takeNext_def enterProcessQueueTx_def buildSettles_def
                  sendSettles_def catchPass_def sleepEnds_def reloadSettles_def
                  receiptHandlers_def fileHistory_def
                  orPollReceipt_def onReceipt_def
                  exConfig_def exManager_def initialManager_def exReceipt_def
                  addClaimTransaction_def new_ClaimTx_def Let_def emit_def
                  buildTx_def buildEthTx_def
                  loadWalletState_def serialize_def addQueuedClaimTx_def
                  updateFaucetStatus_def newStatus_def removeQueuedClaimTx_def)
  have c3: "map_option
        (\<lambda>p. (map session (claimTxQueue (manager p)),
              map (\<lambda>e. (fst e, session (snd e))) (pendingTxQueue (manager p)),
              map (\<lambda>e. (fst e, session (snd e))) (historyTxDict (manager p))))
        (run exConfig exTurns (startRun exManager))
      = Some ([''s3'', ''s1''], [(''0x8c3d'', ''s2'')], [])"
    by (simp add: exTurns_def
                  startRun_def takeNext_def enterProcessQueueTx_def buildSettles_def
                  sendSettles_def catchPass_def sleepEnds_def reloadSettles_def
                  receiptHandlers_def fileHistory_def
                  orPollReceipt_def onReceipt_def
                  exConfig_def exManager_def initialManager_def exReceipt_def
                  addClaimTransaction_def new_ClaimTx_def Let_def emit_def
                  buildTx_def buildEthTx_def
                  loadWalletState_def serialize_def addQueuedClaimTx_def
                  updateFaucetStatus_def newStatus_def removeQueuedClaimTx_def)
  from c1 c2 c3 show ?thesis
    by (intro conjI)
qed

subsection \<open>The turns and the functions of the pipeline\<close>

text \<open>
  The turns of a run are the pieces of \<^verbatim>\<open>processQueueTx\<close> and of the receipt
  watcher between two points at which other code can run. Taken one after the other they
  do what the functions \<open>processQueueTx\<close> and \<open>receiptWatcher\<close> above do in one piece.
\<close>

lemma processQueueTx_afterLoop:
  assumes "ready (walletState s)"
    and "\<not> balance (walletState s) - spareFundsAmount cfg < amount claimTx"
    and "\<not> nativeBalance (walletState s) \<le> ethTxGasLimit cfg * ethTxMaxFee cfg"
  shows "processQueueTx cfg env claimTx s =
     afterLoop cfg (submitLoop cfg env 0 None (claimTx\<lparr>status := PROCESSING\<rparr>)
                      (emit (Emit (session claimTx) ''processing'') s))"
proof -
  obtain s1 c1 r where run:
    "submitLoop cfg env 0 None (claimTx\<lparr>status := PROCESSING\<rparr>)
       (emit (Emit (session claimTx) ''processing'') s) = (s1, c1, r)"
    by (cases "submitLoop cfg env 0 None (claimTx\<lparr>status := PROCESSING\<rparr>)
                 (emit (Emit (session claimTx) ''processing'') s)") auto
  from assms show ?thesis
    by (cases r) (simp_all add: processQueueTx_def afterLoop_def Let_def run)
qed

lemma run_append:
  "run cfg (xs @ ys) p = (case run cfg xs p of None \<Rightarrow> None | Some p' \<Rightarrow> run cfg ys p')"
  by (induction xs arbitrary: p) (auto split: option.splits)

lemma receiptWatcher_turns:
  "receiptWatcher txPromise polls c s =
     (case receiptHandlers txPromise polls c s of
        None \<Rightarrow> None
      | Some (s2, c2) \<Rightarrow> map_option (\<lambda>s'. (s', c2)) (fileHistory c2 s2))"
  by (auto simp: receiptWatcher_def receiptHandlers_def fileHistory_def onReceipt_def
                 onReceiptError_def Let_def
           split: option.splits settled.splits prod.splits)

lemma pass_submitted:
  assumes "attempts env retry = Submitted hex hash"
    and "processing p = Some \<lparr>procClaim = fst (buildTx cfg c sm), procRetry = retry,
                               procError = txError, procPhase = AwaitBuild\<rparr>"
    and "manager p = emit (snd (buildTx cfg c sm)) sm"
  shows "run cfg (passTurns env retry) p =
     Some (p\<lparr>manager := fst (afterLoop cfg (sendAttempt cfg (attempts env retry) c sm)),
             processing := None,
             watching := watching p
                @ [snd (afterLoop cfg (sendAttempt cfg (attempts env retry) c sm))]\<rparr>)"
  using assms
  by (auto simp: passTurns_def buildSettles_def sendSettles_def afterLoop_def sendAttempt_def
                 Let_def split: prod.splits)

lemma pass_failed:
  assumes "sendAttempt cfg (attempts env retry) c sm = (s2, c2, Inl ex)"
    and "processing p = Some \<lparr>procClaim = fst (buildTx cfg c sm), procRetry = retry,
                               procError = txError, procPhase = AwaitBuild\<rparr>"
    and "manager p = emit (snd (buildTx cfg c sm)) sm"
  shows "run cfg (passTurns env retry) p =
     Some (let s4 = loadWalletState cfg (fst (reloads env retry)) (snd (reloads env retry))
                      (emit (Sleep 2000) s2);
               first = (case txError of None \<Rightarrow> ex | Some first \<Rightarrow> first)
           in if retry < 3
              then p\<lparr>manager := emit (snd (buildTx cfg c2 s4)) s4,
                     processing :=
                       Some \<lparr>procClaim = fst (buildTx cfg c2 s4), procRetry = retry + 1,
                             procError = Some first, procPhase = AwaitBuild\<rparr>\<rparr>
              else p\<lparr>manager := emit (Emit (session c2) ''failed'') s4,
                     processing := None\<rparr>)"
  using assms
  by (cases "attempts env retry")
     (auto simp: passTurns_def buildSettles_def sendSettles_def sleepEnds_def
                 reloadSettles_def catchPass_def sendAttempt_def buildTx_def Let_def
           split: prod.splits)


lemma sendAttempt_Inr:
  "sendAttempt cfg att c s = (s2, c2, Inr h) \<Longrightarrow> \<exists>hex. att = Submitted hex h"
  by (cases att) (auto simp: sendAttempt_def Let_def split: prod.splits)

lemma sendAttempt_Inl:
  "sendAttempt cfg att c s = (s2, c2, Inl ex) \<Longrightarrow>
   (case att of Submitted hex hash \<Rightarrow> [] | _ \<Rightarrow> xs) = xs"
  by (cases att) (auto simp: sendAttempt_def Let_def split: prod.splits)

lemma loop_turns:
  assumes "retry \<le> 3"
    and "processing p = Some \<lparr>procClaim = fst (buildTx cfg c sm), procRetry = retry,
                               procError = txError, procPhase = AwaitBuild\<rparr>"
    and "manager p = emit (snd (buildTx cfg c sm)) sm"
    and "submitLoop cfg env retry txError c sm = r"
  shows "run cfg (loopTurns env (4 - retry) retry) p =
     Some (p\<lparr>manager := fst (afterLoop cfg r),
             processing := None,
             watching := watching p
                @ (case snd (snd r) of Inl ex \<Rightarrow> [] | Inr hash \<Rightarrow> [snd (afterLoop cfg r)])\<rparr>)"
  using assms
proof (induction "3 - retry" arbitrary: retry txError c sm p r)
  case 0
  then have r3: "retry = 3" by simp
  obtain s2 c2 r2 where a: "sendAttempt cfg (attempts env retry) c sm = (s2, c2, r2)"
    by (cases "sendAttempt cfg (attempts env retry) c sm") auto
  from r3 have f4: "4 - retry = Suc 0" by simp
  have fuel: "loopTurns env (4 - retry) retry =
      passTurns env retry
      @ (case attempts env retry of Submitted hex hash \<Rightarrow> [] | _ \<Rightarrow> loopTurns env 0 (retry + 1))"
    by (subst f4) simp
  show ?case
  proof (cases r2)
    case (Inr h)
    from sendAttempt_Inr [OF a [unfolded Inr]] obtain hex where
      att: "attempts env retry = Submitted hex h" by blast
    from a Inr "0.prems"(4) have r: "r = sendAttempt cfg (attempts env retry) c sm"
      by (simp add: submitLoop_ok)
    from pass_submitted [OF att "0.prems"(2,3)] a Inr show ?thesis
      by (simp add: fuel att r)
  next
    case (Inl ex)
    from r3 have nlt: "\<not> retry < 3" by simp
    from a Inl "0.prems"(4) nlt have r: "r =
        (loadWalletState cfg (fst (reloads env retry)) (snd (reloads env retry))
           (emit (Sleep 2000) s2),
         c2, Inl (case txError of None \<Rightarrow> ex | Some first \<Rightarrow> first))"
      by (simp add: submitLoop_retry)
    from pass_failed [OF a [unfolded Inl] "0.prems"(2,3)] nlt
    show ?thesis
      by (simp add: fuel sendAttempt_Inl [OF a [unfolded Inl]] run_append r afterLoop_def
                    Let_def)
  qed
next
  case (Suc k)
  from Suc.hyps(2) have lt: "retry < 3" and k: "k = 3 - (retry + 1)" by auto
  obtain s2 c2 r2 where a: "sendAttempt cfg (attempts env retry) c sm = (s2, c2, r2)"
    by (cases "sendAttempt cfg (attempts env retry) c sm") auto
  from lt have f4: "4 - retry = Suc (4 - (retry + 1))" by simp
  have fuel: "loopTurns env (4 - retry) retry =
      passTurns env retry
      @ (case attempts env retry of
           Submitted hex hash \<Rightarrow> []
         | _ \<Rightarrow> loopTurns env (4 - (retry + 1)) (retry + 1))"
    by (subst f4) (simp cong: attempt.case_cong)
  show ?case
  proof (cases r2)
    case (Inr h)
    from sendAttempt_Inr [OF a [unfolded Inr]] obtain hex where
      att: "attempts env retry = Submitted hex h" by blast
    from a Inr Suc.prems(4) have r: "r = sendAttempt cfg (attempts env retry) c sm"
      by (simp add: submitLoop_ok)
    from pass_submitted [OF att Suc.prems(2,3)] a Inr show ?thesis
      by (simp add: fuel att r)
  next
    case (Inl ex)
    let ?s4 = "loadWalletState cfg (fst (reloads env retry)) (snd (reloads env retry))
                 (emit (Sleep 2000) s2)"
    let ?e = "case txError of None \<Rightarrow> ex | Some first \<Rightarrow> first"
    let ?p3 = "p\<lparr>manager := emit (snd (buildTx cfg c2 ?s4)) ?s4,
                  processing :=
                    Some \<lparr>procClaim = fst (buildTx cfg c2 ?s4), procRetry = retry + 1,
                          procError = Some ?e, procPhase = AwaitBuild\<rparr>\<rparr>"
    from a Inl Suc.prems(4) lt
    have r: "submitLoop cfg env (retry + 1) (Some ?e) c2 ?s4 = r"
      by (simp add: submitLoop_retry)
    from pass_failed [OF a [unfolded Inl] Suc.prems(2,3)] lt
    have pass: "run cfg (passTurns env retry) p = Some ?p3"
      by (simp add: Let_def)
    have le: "retry + 1 \<le> 3" using lt by simp
    from Suc.hyps(1) [OF k le _ _ r, of ?p3]
    have "run cfg (loopTurns env (4 - (retry + 1)) (retry + 1)) ?p3 =
        Some (?p3\<lparr>manager := fst (afterLoop cfg r),
                   processing := None,
                   watching := watching ?p3
                      @ (case snd (snd r) of
                           Inl ex \<Rightarrow> [] | Inr hash \<Rightarrow> [snd (afterLoop cfg r)])\<rparr>)"
      by simp
    with pass show ?thesis
      by (simp add: fuel sendAttempt_Inl [OF a [unfolded Inl]] run_append)
  qed
qed

text \<open>
  The turns of one call of \<^verbatim>\<open>processQueueTx\<close>, taken one after the other with
  nothing in between, do what \<open>processQueueStep\<close> does in one piece: the turn
  \<open>TakeNext\<close> alone when a guard fails, and otherwise \<open>TakeNext\<close> and the turns of the
  passes, after which the claim is watched exactly when it is pending.
\<close>

lemma guard_failure_by_turn:
  assumes "processing p = None"
    and "processQueueStep cfg env (manager p) = Some (s', c')"
    and "\<not> ready (walletState (manager p))
         \<or> balance (walletState (manager p)) - spareFundsAmount cfg
             < amount (hd (claimTxQueue (manager p)))
         \<or> nativeBalance (walletState (manager p)) \<le> ethTxGasLimit cfg * ethTxMaxFee cfg"
  shows "run cfg [TakeNext] p = Some (p\<lparr>manager := s'\<rparr>)"
  using assms
  by (auto simp: processQueueStep_def takeNext_def enterProcessQueueTx_def processQueueTx_def
                 Let_def
           split: list.splits if_splits)

lemma processQueueStep_by_turns:
  assumes "processing p = None"
    and "processQueueStep cfg env (manager p) = Some (s', c')"
    and "ready (walletState (manager p))"
    and "\<not> balance (walletState (manager p)) - spareFundsAmount cfg
            < amount (hd (claimTxQueue (manager p)))"
    and "\<not> nativeBalance (walletState (manager p)) \<le> ethTxGasLimit cfg * ethTxMaxFee cfg"
  shows "run cfg (TakeNext # loopTurns env 4 0) p =
     Some (p\<lparr>manager := s',
             watching := watching p @ (if ClaimTx.status c' = PENDING then [c'] else [])\<rparr>)"
proof -
  from assms(2) obtain c rest where q: "claimTxQueue (manager p) = c # rest"
    and more: "length (pendingTxQueue (manager p)) < ethMaxPending cfg"
    and tx: "processQueueTx cfg env c
               ((manager p)\<lparr>claimTxQueue := rest, lastProcessedClaimTxIdx := queueIdx c\<rparr>)
             = (s', c')"
    by (auto simp: processQueueStep_def Let_def split: list.splits if_splits)
  let ?s0 = "(manager p)\<lparr>claimTxQueue := rest, lastProcessedClaimTxIdx := queueIdx c\<rparr>"
  let ?s1 = "emit (Emit (session c) ''processing'') ?s0"
  let ?c0 = "c\<lparr>status := PROCESSING\<rparr>"
  let ?p1 = "p\<lparr>manager := emit (snd (buildTx cfg ?c0 ?s1)) ?s1,
                processing :=
                  Some \<lparr>procClaim = fst (buildTx cfg ?c0 ?s1), procRetry = 0,
                        procError = None, procPhase = AwaitBuild\<rparr>\<rparr>"
  define r where "r = submitLoop cfg env 0 None ?c0 ?s1"
  from assms(3-5) q have g: "ready (walletState ?s0)"
      "\<not> balance (walletState ?s0) - spareFundsAmount cfg < amount c"
      "\<not> nativeBalance (walletState ?s0) \<le> ethTxGasLimit cfg * ethTxMaxFee cfg"
    by simp_all
  from assms(1) q more g have take: "takeNext cfg p = Some ?p1"
    by (simp add: takeNext_def enterProcessQueueTx_def Let_def split: prod.splits)
  from processQueueTx_afterLoop [OF g, of env] tx have fin: "afterLoop cfg r = (s', c')"
    by (simp add: r_def)
  have loop: "run cfg (loopTurns env (4 - 0) 0) ?p1 =
      Some (?p1\<lparr>manager := fst (afterLoop cfg r),
                 processing := None,
                 watching := watching ?p1
                    @ (case snd (snd r) of
                         Inl ex \<Rightarrow> [] | Inr hash \<Rightarrow> [snd (afterLoop cfg r)])\<rparr>)"
    by (rule loop_turns [where c = ?c0 and sm = ?s1 and txError = None])
       (simp_all add: r_def)
  have st: "(case snd (snd r) of Inl ex \<Rightarrow> [] | Inr hash \<Rightarrow> [snd (afterLoop cfg r)])
            = (if ClaimTx.status c' = PENDING then [c'] else [])"
    using fin by (cases r; cases "snd (snd r)") (auto simp: afterLoop_def Let_def)
  from take loop show ?thesis
    by (simp add: fin st assms(1))
qed

lemma receiptWatcher_by_turns:
  assumes "find (\<lambda>c. txhash c = Some hash) (watching p) = Some c"
    and "settling p = []"
    and "receiptWatcher txPromise polls c (manager p) = Some (s', c')"
  shows "run cfg [ReceiptSettles hash txPromise polls, HistoryFiled] p =
     Some (p\<lparr>manager := s', watching := remove1 c (watching p)\<rparr>)"
  using assms
  by (auto simp: receiptWatcher_turns split: option.splits prod.splits)


subsection \<open>The refill controller\<close>


lemma foldl_amounts:
  "foldl (\<lambda>totalPending claimTx. totalPending + amount claimTx) a q = a + sum_list (map amount q)"
  by (induction q arbitrary: a) simp_all

lemma getQueuedAmount_sum: "getQueuedAmount s = sum_list (map amount (claimTxQueue s))"
  by (simp add: getQueuedAmount_def foldl_amounts)

text \<open>
  The decision of \<^verbatim>\<open>tryRefillWallet\<close> past its guards, for a trigger balance and an
  overflow balance below \<open>10 ^ 21\<close> in magnitude, which lines 651 and 653 convert. The
  effective balance is the token balance less the unclaimed rewards less the sum of the
  queued amounts. If \<open>overflowBalance\<close> is set (and not 0) and the effective balance
  exceeds it, the overflow transaction is sent with the amount
  \<open>effectiveBalance - overflowBalance\<close>; otherwise, if the effective balance is below
  \<open>triggerBalance\<close>, the refill transaction is sent; otherwise nothing is done beyond
  recording the time of the try.
\<close>

lemma refill_decision:
  assumes "ethRefillContract cfg = Some rc"
    and "\<not> walletRefilling s"
    and "\<forall>t. lastWalletRefillTry s = Some t \<and> t \<noteq> 0 \<longrightarrow> 60 \<le> now - t"
    and "\<forall>t cd. lastWalletRefill s = Some t \<and> t \<noteq> 0 \<and> cooldownTime rc = Some cd \<and> cd \<noteq> 0
                  \<longrightarrow> cd \<le> now - t"
    and "effectiveBalance =
           balance (walletState s) - unclaimedBalance env - sum_list (map amount (claimTxQueue s))"
    and "\<bar>triggerBalance rc\<bar> < 1000000000000000000000"
    and "\<forall>ob. overflowBalance rc = Some ob \<longrightarrow> \<bar>ob\<bar> < 1000000000000000000000"
  shows "tryRefillWallet cfg env now s =
     (case overflowBalance rc of
        Some ob \<Rightarrow>
          (if ob \<noteq> 0 \<and> effectiveBalance > ob
           then awaitRefillTx cfg env
                  (overflowWallet cfg rc (effectiveBalance - ob) env
                     (s\<lparr>lastWalletRefillTry := Some now, walletRefilling := True\<rparr>))
           else if effectiveBalance < triggerBalance rc
           then awaitRefillTx cfg env
                  (refillWallet cfg rc env
                     (s\<lparr>lastWalletRefillTry := Some now, walletRefilling := True\<rparr>))
           else Some (s\<lparr>lastWalletRefillTry := Some now\<rparr>))
      | None \<Rightarrow>
          (if effectiveBalance < triggerBalance rc
           then awaitRefillTx cfg env
                  (refillWallet cfg rc env
                     (s\<lparr>lastWalletRefillTry := Some now, walletRefilling := True\<rparr>))
           else Some (s\<lparr>lastWalletRefillTry := Some now\<rparr>)))"
proof -
  have g1: "(truthy_num (lastWalletRefillTry s)
              \<and> (case lastWalletRefillTry s of Some t \<Rightarrow> now - t < 60 | None \<Rightarrow> False))
            = False"
    using assms(3) by (auto simp: truthy_num_def split: option.splits)
  have g2: "(truthy_num (lastWalletRefill s) \<and> truthy_num (cooldownTime rc)
              \<and> (case (lastWalletRefill s, cooldownTime rc) of
                    (Some t, Some cd) \<Rightarrow> now - t < cd
                  | _ \<Rightarrow> False))
            = False"
    using assms(4) by (auto simp: truthy_num_def split: option.splits)
  let ?s1 = "s\<lparr>lastWalletRefillTry := Some now\<rparr>"
  have step: "tryRefillWallet cfg env now s =
      (case refillAction rc effectiveBalance of
         Inl ex \<Rightarrow> Some (emit (Uncaught ex) ?s1)
       | Inr None \<Rightarrow> Some ?s1
       | Inr (Some action) \<Rightarrow>
           refillAttempt cfg rc env action effectiveBalance (?s1\<lparr>walletRefilling := True\<rparr>))"
    using assms(1,2) g1 g2
    by (auto simp: tryRefillWallet_def Let_def getQueuedAmount_sum assms(5)
             cong: sum.case_cong option.case_cong)
  have tb: "configBigInt (triggerBalance rc) = Inr (triggerBalance rc)"
    by (rule configBigInt_small [OF assms(6)])
  show ?thesis
  proof (cases "overflowBalance rc")
    case None
    then show ?thesis
      unfolding step
      by (simp add: refillAction_def refillAttempt_def sendRefillTx_def truthy_num_def tb)
  next
    case (Some ob)
    with assms(7) have "configBigInt ob = Inr ob"
      by (simp add: configBigInt_small)
    with Some show ?thesis
      unfolding step
      by (simp add: refillAction_def refillAttempt_def sendRefillTx_def truthy_num_def tb)
  qed
qed

text \<open>
  The three branches on the vault of the examples: the rich wallet sends what exceeds
  \<open>2 * 10 ^ 18\<close> wei to the vault (3.1 less 0.1 unclaimed is 3.0 ether, so 1.0 ether
  goes), the poor wallet calls \<^verbatim>\<open>withdraw\<close> for \<open>10 ^ 18\<close> wei, and a wallet in
  between sends nothing.
\<close>

lemma refill_decision_examples:
  "map_option (\<lambda>s. (effects s, WalletState.nonce (walletState s)))
     (tryRefillWallet exRefillConfig
        (exRefillEnv\<lparr>reloaded := (1700000130, Loaded 2000000000000000000 6 0)\<rparr>)
        1700000100 exRichManager)
   = Some ([BuildEthTx ''0xVa17'' 1000000000000000000 5 None 300000,
            SendTransaction ''02f872'', ReadWalletState, SetFaucetStatus NORMAL], 6)"
  "map_option (\<lambda>s. (effects s, WalletState.nonce (walletState s)))
     (tryRefillWallet exRefillConfig exRefillEnv 1700000100 exPoorManager)
   = Some ([BuildEthTx ''0xVa17'' 0 5
              (Some (MethodCall ''withdraw'' [ArgAmount 1000000000000000000])) 300000,
            SendTransaction ''02f872'', ReadWalletState, SetFaucetStatus NORMAL], 6)"
  "map_option (\<lambda>s. (effects s, WalletState.nonce (walletState s), lastWalletRefillTry s))
     (tryRefillWallet exRefillConfig exRefillEnv 1700000100
        (exManager\<lparr>walletState := \<lparr>ready = True, nonce = 5,
                                    balance = 1600000000000000000,
                                    nativeBalance = 1600000000000000000\<rparr>\<rparr>))
   = Some ([], 5, Some 1700000100)"
  by (simp_all add: tryRefillWallet_def refillAction_def refillAttempt_def sendRefillTx_def
                refillWallet_def overflowWallet_def getCallArgs_def getQueuedAmount_def
                truthy_num_def configBigInt_small
                exRefillConfig_def exRefillContract_def exPoorManager_def exRichManager_def
                exManager_def initialManager_def exRefillEnv_def exConfig_def exReceipt_def
                awaitRefillTx_def sendVaultTx_def buildEthTx_def
                orPollReceipt_def truthy_str_def loadWalletState_def updateFaucetStatus_def
                newStatus_def emit_def Let_def)

text \<open>
  C7 does not hold for a trigger balance from \<open>10 ^ 21\<close> wei (1000 ether) on. The
  vault has that trigger balance and no overflow balance; the effective balance of the
  poor wallet is \<open>5 * 10 ^ 17\<close> wei, far below it, so that a refill is due. Line 653
  converts the trigger balance through its string \<^verbatim>\<open>1e+21\<close>, which \<^verbatim>\<open>BigInt\<close>
  refuses: \<^verbatim>\<open>tryRefillWallet\<close> ends with a SyntaxError after it has recorded the time
  of the try, and no transaction is built or sent, at this call and at every later one.
  With a trigger balance of 100 ether the refill is sent.
\<close>

theorem C7_refill_trigger_conversion:
  "balance (walletState exPoorManager) - unclaimedBalance exRefillEnv
     - getQueuedAmount exPoorManager = 500000000000000000
   \<and> map_option
        (\<lambda>s. (effects s, walletRefilling s, lastWalletRefillTry s,
              WalletState.nonce (walletState s)))
        (tryRefillWallet exBigTriggerConfig exRefillEnv 1700000100 exPoorManager)
      = Some ([Uncaught ''SyntaxError: Cannot convert 1e+21 to a BigInt''], False,
              Some 1700000100, 5)
   \<and> map_option (\<lambda>s. (effects s, WalletState.nonce (walletState s)))
        (tryRefillWallet exSmallTriggerConfig exRefillEnv 1700000100 exPoorManager)
      = Some ([BuildEthTx ''0xVa17'' 0 5
                 (Some (MethodCall ''withdraw'' [ArgAmount 1000000000000000000])) 300000,
               SendTransaction ''02f872'', ReadWalletState, SetFaucetStatus NORMAL], 6)"
  by (simp add: tryRefillWallet_def refillAction_def refillAttempt_def sendRefillTx_def
                refillWallet_def getCallArgs_def getQueuedAmount_def truthy_num_def
                configBigInt_small configBigInt_large number_toString_1e21
                exBigTriggerConfig_def exSmallTriggerConfig_def
                exRefillContract_def exPoorManager_def exManager_def
                initialManager_def exRefillEnv_def exConfig_def exReceipt_def
                awaitRefillTx_def sendVaultTx_def buildEthTx_def
                orPollReceipt_def truthy_str_def loadWalletState_def updateFaucetStatus_def
                newStatus_def emit_def Let_def)


text \<open>
  On every other path the guard is cleared when the attempt is over.
\<close>

lemma awaitRefillTx_clears_guard:
  assumes "\<forall>ex. txReceipt env = Rejected ex \<longrightarrow> \<not> str_match ''Transaction was not mined within'' ex"
    and "awaitRefillTx cfg env (s1, r) = Some s'"
  shows "\<not> walletRefilling s'"
proof (cases r)
  case (Rejected ex)
  with assms(2) show ?thesis by (auto simp: awaitRefillTx_def)
next
  case (Resolved txHash)
  show ?thesis
  proof (cases "txReceipt env")
    case (Resolved receipt)
    with assms(2) \<open>r = Resolved txHash\<close> show ?thesis
      by (auto simp: awaitRefillTx_def orPollReceipt_def split: if_splits)
  next
    case (Rejected ex)
    with assms(1) have "\<not> str_match ''Transaction was not mined within'' ex" by simp
    with assms(2) Rejected \<open>r = Resolved txHash\<close> show ?thesis
      by (auto simp: awaitRefillTx_def orPollReceipt_def)
  qed
qed

text \<open>
  C6 does not hold on the path it names. The refill transaction is sent, its receipt
  promise gives up (\<^verbatim>\<open>Transaction was not mined within 750 seconds\<close>) and the second
  poll finds a receipt with a true status: \<open>tryRefillWallet\<close> returns with
  \<open>walletRefilling\<close> still set, and a later call returns at the guard without doing
  anything. With a promise that is resolved the guard is cleared.
\<close>

theorem C6_refill_guard_stays_set:
  "map_option walletRefilling
     (tryRefillWallet exRefillConfig exUnminedEnv 1700000100 exPoorManager) = Some True
   \<and> map_option (\<lambda>s. tryRefillWallet exRefillConfig exRefillEnv 1700009999 s = Some s)
       (tryRefillWallet exRefillConfig exUnminedEnv 1700000100 exPoorManager) = Some True
   \<and> map_option walletRefilling
       (tryRefillWallet exRefillConfig exRefillEnv 1700000100 exPoorManager) = Some False"
  by (simp add: tryRefillWallet_def refillAction_def refillAttempt_def sendRefillTx_def
                refillWallet_def getCallArgs_def getQueuedAmount_def truthy_num_def
                configBigInt_small exRefillConfig_def exRefillContract_def exPoorManager_def exManager_def
                initialManager_def exRefillEnv_def exUnminedEnv_def exConfig_def exReceipt_def
                awaitRefillTx_def sendVaultTx_def buildEthTx_def
                orPollReceipt_def truthy_str_def loadWalletState_def updateFaucetStatus_def
                newStatus_def emit_def Let_def)

end
